theory Spec2Isabelle
  imports Complex_Main "HOL-Library.Sublist"
begin

section \<open>Data model (src/types.ts and the refs of the App component)\<close>

text \<open>
  The component \<^verbatim>\<open>App\<close> of \<^verbatim>\<open>src/App.tsx\<close> holds four pieces of React state and
  seven refs. They are gathered in one record, and every callback of the component is a
  function from the record to the updated record. Times of the audio clock are JavaScript
  numbers, written here as \<open>real\<close>: \<open>max\<close> and \<open>\<le>\<close> are exact on doubles as on
  reals, and every \<open>+\<close> below stands for the one addition the code performs at that
  place, so no statement about the cursor regroups additions or adds values the code
  does not add. Strings are \<open>char list\<close>, a character standing for one code unit
  below 256.
\<close>

datatype ConnectionStatus = DISCONNECTED | CONNECTING | CONNECTED | ERROR

datatype role = user | model

text \<open>\<^verbatim>\<open>interface Message\<close>; \<open>id\<close> and \<open>text\<close> are renamed, both being reserved.\<close>

record Message =
  msg_id :: string
  role :: role
  msg_text :: string
  timestamp :: int

text \<open>What the callbacks can throw or catch.\<close>

datatype error = ApiKeyNotFound | AcquisitionError | DecodeError | InvalidStateError | TypeError

text \<open>
  A Web Audio \<^verbatim>\<open>AudioBuffer\<close>: its \<^verbatim>\<open>duration\<close> attribute is, by the Web Audio API,
  the number of sample frames divided by the sample rate.
\<close>

record AudioBuffer =
  frames :: nat
  sampleRate :: nat

definition duration :: "AudioBuffer \<Rightarrow> real" where
  "duration b = real (frames b) / real (sampleRate b)"

text \<open>A \<^verbatim>\<open>MediaStream\<close> is known by the handles of its tracks.\<close>

datatype MediaStream = MediaStream (getTracks: "nat list")

text \<open>
  Calls made on objects of the browser, in the order they are made. Handles of audio
  contexts, source nodes, script processors, tracks and sessions are natural numbers.
  \<open>Connect n\<close> is the call of \<^verbatim>\<open>ai.live.connect\<close> that yields session \<open>n\<close>;
  \<open>SessionClose n\<close> would be a call of \<^verbatim>\<open>close\<close> on it. \<open>Uncaught e\<close> records an
  exception that leaves a callback without being caught.
\<close>

datatype event =
    CreateContext nat nat
  | Connect nat
  | SessionClose nat
  | CreateScriptProcessor nat nat
  | SourceStart nat real
  | SourceStop nat
  | TrackStop nat
  | ProcessorDisconnect nat
  | ContextClose nat
  | ConsoleError error
  | Uncaught error

text \<open>
  Besides the state and the refs of the component the record holds the log of calls,
  the next unused handle, and the calls of \<^verbatim>\<open>startSession\<close> that are suspended at
  \<^verbatim>\<open>await getUserMedia\<close>, each with what its promise settles to.
\<close>

record state =
  status :: ConnectionStatus
  messages :: "Message list"
  currentInputText :: string
  currentOutputText :: string
  audioContextRef :: "nat option"
  outAudioContextRef :: "nat option"
  nextStartTimeRef :: real
  activeSourcesRef :: "nat list"
  sessionPromiseRef :: "nat option"
  micStreamRef :: "MediaStream option"
  scriptProcessorRef :: "nat option"
  events :: "event list"
  fresh :: nat
  awaiting :: "(error + MediaStream) list"

text \<open>The values of \<^verbatim>\<open>useState\<close> and \<^verbatim>\<open>useRef\<close> at mount.\<close>

definition init :: state where
  "init = \<lparr> status = DISCONNECTED, messages = [], currentInputText = [],
            currentOutputText = [], audioContextRef = None, outAudioContextRef = None,
            nextStartTimeRef = 0, activeSourcesRef = [], sessionPromiseRef = None,
            micStreamRef = None, scriptProcessorRef = None, events = [], fresh = 0,
            awaiting = [] \<rparr>"

text \<open>
  A JavaScript \<^verbatim>\<open>Set\<close> keeps insertion order and no duplicates: a list with
  \<^verbatim>\<open>add\<close> and \<^verbatim>\<open>delete\<close> written out.
\<close>

definition Set_add :: "nat \<Rightarrow> nat list \<Rightarrow> nat list" where
  "Set_add x xs = (if x \<in> set xs then xs else xs @ [x])"

definition Set_delete :: "nat \<Rightarrow> nat list \<Rightarrow> nat list" where
  "Set_delete x xs = removeAll x xs"

text \<open>
  The inbound message, \<^verbatim>\<open>LiveServerMessage\<close>, restricted to the fields the code reads.
  Every field is optional, as in the type of the library: a transcription may lack its
  text and a model turn may lack its list of parts. The two flags are read for their
  truth only, so an absent flag is \<open>False\<close>.
\<close>

datatype Transcription = Transcription (text_of: "string option")

datatype Blob = Blob (data: "string option")

datatype Part = Part (inlineData: "Blob option")

datatype Content = Content (parts: "Part list option")

record ServerContent =
  modelTurn :: "Content option"
  turnComplete :: bool
  interrupted :: bool
  inputTranscription :: "Transcription option"
  outputTranscription :: "Transcription option"

datatype LiveServerMessage = LiveServerMessage (serverContent: "ServerContent option")

text \<open>
  What a call of \<^verbatim>\<open>handleMessage\<close> reads from the browser: the clock of the output
  context, the outcome of \<^verbatim>\<open>decodeAudioData(decode(base64Audio), ctx, 24000, 1)\<close>
  (the module \<^verbatim>\<open>audio-utils\<close> is a parameter) and whether \<^verbatim>\<open>source.stop()\<close> throws.
\<close>

record platform =
  currentTime :: real
  decodeAudioData :: "string \<Rightarrow> error + AudioBuffer"
  stop_throws :: "nat \<Rightarrow> bool"

text \<open>What a call of \<^verbatim>\<open>startSession\<close> reads: the API key and the microphone.\<close>

record env =
  apiKey :: "string option"
  getUserMedia :: "error + MediaStream"

section \<open>addMessage\<close>

text \<open>
  \<^verbatim>\<open>String.prototype.trim\<close> strips white space and line terminators from both ends;
  below 256 these are the code units 9 to 13, 32 and 160.
\<close>

definition is_ws :: "char \<Rightarrow> bool" where
  "is_ws c = ((of_char c :: nat) \<in> {9, 10, 11, 12, 13, 32, 160})"

definition trim :: "string \<Rightarrow> string" where
  "trim t = rev (dropWhile is_ws (rev (dropWhile is_ws t)))"

text \<open>
  \<^verbatim>\<open>if (!text.trim()) return;\<close> then the entry is appended. The random id and
  \<^verbatim>\<open>Date.now()\<close> are arguments.
\<close>

definition addMessage :: "string \<Rightarrow> int \<Rightarrow> role \<Rightarrow> string \<Rightarrow> state \<Rightarrow> state" where
  "addMessage rid now r t s =
     (if trim t = [] then s
      else s\<lparr>messages := messages s @
               [\<lparr>msg_id = rid, role = r, msg_text = t, timestamp = now\<rparr>]\<rparr>)"

section \<open>handleMessage\<close>

text \<open>
  \<^verbatim>\<open>prev + transcription.text\<close>: a text that is absent is \<^verbatim>\<open>undefined\<close>, which string
  concatenation turns into the nine characters of that word.
\<close>

definition fragment :: "Transcription \<Rightarrow> string" where
  "fragment t = (case text_of t of None \<Rightarrow> ''undefined'' | Some x \<Rightarrow> x)"

text \<open>Step 1: the output fragment, else the input fragment.\<close>

definition handleTranscription :: "LiveServerMessage \<Rightarrow> state \<Rightarrow> state" where
  "handleTranscription m s =
     (case serverContent m of
        None \<Rightarrow> s
      | Some sc \<Rightarrow>
          (case outputTranscription sc of
             Some t \<Rightarrow> s\<lparr>currentOutputText := currentOutputText s @ fragment t\<rparr>
           | None \<Rightarrow>
               (case inputTranscription sc of
                  Some t \<Rightarrow> s\<lparr>currentInputText := currentInputText s @ fragment t\<rparr>
                | None \<Rightarrow> s)))"

text \<open>Turn complete: \<^verbatim>\<open>setMessages(prev => [...prev])\<close>, a copy of the list.\<close>

definition handleTurnComplete :: "LiveServerMessage \<Rightarrow> state \<Rightarrow> state" where
  "handleTurnComplete m s =
     (case serverContent m of
        None \<Rightarrow> s
      | Some sc \<Rightarrow> if turnComplete sc then s\<lparr>messages := map (\<lambda>x. x) (messages s)\<rparr> else s)"

text \<open>
  \<^verbatim>\<open>message.serverContent?.modelTurn?.parts[0]?.inlineData?.data\<close>. Every step but one
  is guarded by \<^verbatim>\<open>?.\<close>: when the model turn is there and its \<^verbatim>\<open>parts\<close> is not,
  \<^verbatim>\<open>parts[0]\<close> throws a \<^verbatim>\<open>TypeError\<close>. An empty list gives \<^verbatim>\<open>undefined\<close>.
\<close>

definition base64Audio :: "LiveServerMessage \<Rightarrow> error + string option" where
  "base64Audio m =
     (case serverContent m of
        None \<Rightarrow> Inr None
      | Some sc \<Rightarrow>
          (case modelTurn sc of
             None \<Rightarrow> Inr None
           | Some c \<Rightarrow>
               (case parts c of
                  None \<Rightarrow> Inl TypeError
                | Some [] \<Rightarrow> Inr None
                | Some (p # ps) \<Rightarrow>
                    (case inlineData p of None \<Rightarrow> Inr None | Some b \<Rightarrow> Inr (data b)))))"

text \<open>
  Step 2, the statement \<^verbatim>\<open>if (base64Audio && outAudioContextRef.current) { ... }\<close> for
  a payload already read. The cursor is clamped to the clock before the \<^verbatim>\<open>try\<close>;
  inside it the chunk is decoded, a fresh source node is started at the cursor, the
  cursor advances by the duration (the \<^verbatim>\<open>+=\<close> of the code) and the node joins the active
  set. The \<^verbatim>\<open>catch\<close> logs the error. The body runs to the end before another callback
  starts.
\<close>

definition handleAudio :: "platform \<Rightarrow> string option \<Rightarrow> state \<Rightarrow> state" where
  "handleAudio P payload s =
     (case payload of
        None \<Rightarrow> s
      | Some b64 \<Rightarrow>
          if b64 = [] then s
          else
            (case outAudioContextRef s of
               None \<Rightarrow> s
             | Some ctx \<Rightarrow>
                 let s1 = s\<lparr>nextStartTimeRef := max (nextStartTimeRef s) (currentTime P)\<rparr>
                 in (case decodeAudioData P b64 of
                       Inl err \<Rightarrow> s1\<lparr>events := events s1 @ [ConsoleError err]\<rparr>
                     | Inr audioBuffer \<Rightarrow>
                         let source = fresh s1
                         in s1\<lparr>fresh := Suc source,
                               events := events s1 @ [SourceStart source (nextStartTimeRef s1)],
                               nextStartTimeRef := nextStartTimeRef s1 + duration audioBuffer,
                               activeSourcesRef := Set_add source (activeSourcesRef s1)\<rparr>)))"

text \<open>\<^verbatim>\<open>source.stop()\<close> as the browser answers it.\<close>

definition source_stop :: "platform \<Rightarrow> nat \<Rightarrow> error + unit" where
  "source_stop P src = (if stop_throws P src then Inl InvalidStateError else Inr ())"

text \<open>\<^verbatim>\<open>try { source.stop(); } catch(e) {}\<close>: the call is made, what it throws is dropped.\<close>

definition try_stop :: "platform \<Rightarrow> event list \<Rightarrow> nat \<Rightarrow> event list" where
  "try_stop P evs src =
     (case source_stop P src of
        Inl e \<Rightarrow> evs @ [SourceStop src]
      | Inr u \<Rightarrow> evs @ [SourceStop src])"

text \<open>Step 3: the interruption.\<close>

definition handleInterrupted :: "platform \<Rightarrow> LiveServerMessage \<Rightarrow> state \<Rightarrow> state" where
  "handleInterrupted P m s =
     (case serverContent m of
        None \<Rightarrow> s
      | Some sc \<Rightarrow>
          if interrupted sc
          then s\<lparr>events := foldl (try_stop P) (events s) (activeSourcesRef s),
                 activeSourcesRef := [],
                 nextStartTimeRef := 0\<rparr>
          else s)"

text \<open>
  The body of \<^verbatim>\<open>handleMessage\<close>. The function is \<^verbatim>\<open>async\<close> and nothing awaits or
  catches its promise: the \<^verbatim>\<open>TypeError\<close> of the payload lookup ends the call after
  steps 1 and turn-complete, and the steps after it are not run.
\<close>

definition handleMessage :: "platform \<Rightarrow> LiveServerMessage \<Rightarrow> state \<Rightarrow> state" where
  "handleMessage P m s =
     (let s1 = handleTurnComplete m (handleTranscription m s)
      in (case base64Audio m of
            Inl e \<Rightarrow> s1\<lparr>events := events s1 @ [Uncaught e]\<rparr>
          | Inr payload \<Rightarrow> handleInterrupted P m (handleAudio P payload s1)))"

text \<open>The \<^verbatim>\<open>ended\<close> listener of a source node.\<close>

definition sourceEnded :: "nat \<Rightarrow> state \<Rightarrow> state" where
  "sourceEnded source s = s\<lparr>activeSourcesRef := Set_delete source (activeSourcesRef s)\<rparr>"

section \<open>startSession, its callbacks, stopSession\<close>

text \<open>
  \<^verbatim>\<open>startSession\<close> up to \<^verbatim>\<open>await navigator.mediaDevices.getUserMedia\<close>. It returns at
  once unless the status is \<open>DISCONNECTED\<close>. Otherwise the status becomes
  \<open>CONNECTING\<close>; a missing or empty API key lands in the \<^verbatim>\<open>catch\<close> (log, status
  \<open>ERROR\<close>); else the two audio contexts are created, the microphone is asked for and
  the call is suspended.
\<close>

definition startSession :: "env \<Rightarrow> state \<Rightarrow> state" where
  "startSession E s =
     (if status s \<noteq> DISCONNECTED then s
      else
        let s1 = s\<lparr>status := CONNECTING\<rparr>
        in if apiKey E = None \<or> apiKey E = Some []
           then s1\<lparr>events := events s1 @ [ConsoleError ApiKeyNotFound], status := ERROR\<rparr>
           else
             let a = fresh s1
             in s1\<lparr>audioContextRef := Some a,
                   outAudioContextRef := Some (Suc a),
                   fresh := a + 2,
                   events := events s1 @ [CreateContext a 16000, CreateContext (Suc a) 24000],
                   awaiting := awaiting s1 @ [getUserMedia E]\<rparr>)"

text \<open>
  The rest of \<^verbatim>\<open>startSession\<close>, run when the promise of \<^verbatim>\<open>getUserMedia\<close> settles,
  the oldest suspended call first. A rejection lands in the \<^verbatim>\<open>catch\<close>. Otherwise the
  stream is stored, \<^verbatim>\<open>ai.live.connect\<close> is called and its promise stored; the status is
  not read again. With no call suspended there is nothing to run.
\<close>

definition startSession_resumed :: "state \<Rightarrow> state" where
  "startSession_resumed s =
     (case awaiting s of
        [] \<Rightarrow> s
      | settled # others \<Rightarrow>
          let s1 = s\<lparr>awaiting := others\<rparr>
          in (case settled of
                Inl err \<Rightarrow> s1\<lparr>events := events s1 @ [ConsoleError err], status := ERROR\<rparr>
              | Inr stream \<Rightarrow>
                  let sess = fresh s1
                  in s1\<lparr>micStreamRef := Some stream,
                        sessionPromiseRef := Some sess,
                        fresh := Suc sess,
                        events := events s1 @ [Connect sess]\<rparr>))"

text \<open>
  \<^verbatim>\<open>onopen\<close>: the status becomes \<open>CONNECTED\<close> and the script processor is created on
  \<^verbatim>\<open>audioContextRef.current!\<close>, which throws when the ref is null.
\<close>

definition onopen :: "state \<Rightarrow> state" where
  "onopen s =
     (let s1 = s\<lparr>status := CONNECTED\<rparr>
      in (case audioContextRef s1 of
            None \<Rightarrow> s1\<lparr>events := events s1 @ [Uncaught TypeError]\<rparr>
          | Some ctx \<Rightarrow>
              let p = fresh s1
              in s1\<lparr>scriptProcessorRef := Some p,
                    fresh := Suc p,
                    events := events s1 @ [CreateScriptProcessor ctx p]\<rparr>))"

definition onerror :: "error \<Rightarrow> state \<Rightarrow> state" where
  "onerror e s = s\<lparr>events := events s @ [ConsoleError e], status := ERROR\<rparr>"

text \<open>\<^verbatim>\<open>stopSession\<close>, statement by statement.\<close>

definition stopSession :: "state \<Rightarrow> state" where
  "stopSession s =
     (let s0 = s\<lparr>status := DISCONNECTED\<rparr>;
          s1 = (case micStreamRef s0 of
                  None \<Rightarrow> s0
                | Some stream \<Rightarrow>
                    s0\<lparr>events := events s0 @ map TrackStop (getTracks stream),
                       micStreamRef := None\<rparr>);
          s2 = (case scriptProcessorRef s1 of
                  None \<Rightarrow> s1
                | Some p \<Rightarrow>
                    s1\<lparr>events := events s1 @ [ProcessorDisconnect p],
                       scriptProcessorRef := None\<rparr>);
          s3 = (case audioContextRef s2 of
                  None \<Rightarrow> s2
                | Some c \<Rightarrow>
                    s2\<lparr>events := events s2 @ [ContextClose c], audioContextRef := None\<rparr>);
          s4 = (case outAudioContextRef s3 of
                  None \<Rightarrow> s3
                | Some c \<Rightarrow>
                    s3\<lparr>events := events s3 @ [ContextClose c], outAudioContextRef := None\<rparr>)
      in s4\<lparr>sessionPromiseRef := None, currentInputText := [], currentOutputText := []\<rparr>)"

definition onclose :: "state \<Rightarrow> state" where
  "onclose s = stopSession s"

section \<open>Runs of the component\<close>

datatype op =
    StartSession env
  | GetUserMediaSettled
  | OnOpen
  | OnMessage platform LiveServerMessage
  | OnError error
  | OnClose
  | StopSession
  | AddMessage string int role string
  | SourceEnded nat

fun step :: "state \<Rightarrow> op \<Rightarrow> state" where
  "step s (StartSession E) = startSession E s"
| "step s GetUserMediaSettled = startSession_resumed s"
| "step s OnOpen = onopen s"
| "step s (OnMessage P m) = handleMessage P m s"
| "step s (OnError e) = onerror e s"
| "step s OnClose = onclose s"
| "step s StopSession = stopSession s"
| "step s (AddMessage rid now r t) = addMessage rid now r t s"
| "step s (SourceEnded src) = sourceEnded src s"

definition run :: "state \<Rightarrow> op list \<Rightarrow> state" where
  "run s ops = foldl step s ops"

section \<open>Observations on runs\<close>

text \<open>The times passed to \<^verbatim>\<open>source.start\<close>, in order.\<close>

fun start_times :: "event list \<Rightarrow> real list" where
  "start_times [] = []"
| "start_times (SourceStart src t # es) = t # start_times es"
| "start_times (e # es) = start_times es"

text \<open>The exceptions that left a callback.\<close>

fun uncaught :: "event list \<Rightarrow> error list" where
  "uncaught [] = []"
| "uncaught (Uncaught e # es) = e # uncaught es"
| "uncaught (ev # es) = uncaught es"

text \<open>The sessions asked of \<^verbatim>\<open>ai.live.connect\<close>.\<close>

fun connects :: "event list \<Rightarrow> nat list" where
  "connects [] = []"
| "connects (Connect n # es) = n # connects es"
| "connects (ev # es) = connects es"

text \<open>The sessions on which \<^verbatim>\<open>close\<close> was called.\<close>

fun closes :: "event list \<Rightarrow> nat list" where
  "closes [] = []"
| "closes (SessionClose n # es) = n # closes es"
| "closes (ev # es) = closes es"

text \<open>The tracks on which \<^verbatim>\<open>stop\<close> was called.\<close>

fun stopped_tracks :: "event list \<Rightarrow> nat list" where
  "stopped_tracks [] = []"
| "stopped_tracks (TrackStop n # es) = n # stopped_tracks es"
| "stopped_tracks (ev # es) = stopped_tracks es"

text \<open>The calls of \<^verbatim>\<open>source.stop\<close>.\<close>

fun stops :: "event list \<Rightarrow> nat list" where
  "stops [] = []"
| "stops (SourceStop n # es) = n # stops es"
| "stops (ev # es) = stops es"

text \<open>A message that carries an audio payload and nothing else.\<close>

definition chunk :: "string \<Rightarrow> LiveServerMessage" where
  "chunk b64 = LiveServerMessage (Some \<lparr>
      modelTurn = Some (Content (Some [Part (Some (Blob (Some b64)))])),
      turnComplete = False, interrupted = False, inputTranscription = None,
      outputTranscription = None\<rparr>)"

text \<open>A message that carries the interruption signal and nothing else.\<close>

definition interruption :: LiveServerMessage where
  "interruption = LiveServerMessage (Some \<lparr>modelTurn = None, turnComplete = False,
      interrupted = True, inputTranscription = None, outputTranscription = None\<rparr>)"

text \<open>A browser whose output clock reads \<open>t\<close> and whose decoder is \<open>dec\<close>.\<close>

definition player :: "real \<Rightarrow> (string \<Rightarrow> error + AudioBuffer) \<Rightarrow> platform" where
  "player t dec = \<lparr>currentTime = t, decodeAudioData = dec, stop_throws = (\<lambda>src. False)\<rparr>"

definition decodes_to :: "AudioBuffer \<Rightarrow> string \<Rightarrow> error + AudioBuffer" where
  "decodes_to buf b64 = Inr buf"

definition half_second :: AudioBuffer where
  "half_second = \<lparr>frames = 12000, sampleRate = 24000\<rparr>"

text \<open>An environment with an API key and a microphone, and the state after the session opened.\<close>

definition granted :: env where
  "granted = \<lparr>apiKey = Some ''key'', getUserMedia = Inr (MediaStream [7])\<rparr>"

definition connected :: state where
  "connected = run init [StartSession granted, GetUserMediaSettled, OnOpen]"

text \<open>Whether an operation is a message with the interruption signal.\<close>

fun interrupts :: "op \<Rightarrow> bool" where
  "interrupts (OnMessage P m) = (case serverContent m of None \<Rightarrow> False | Some sc \<Rightarrow> interrupted sc)"
| "interrupts other = False"

text \<open>The states a run goes through, the first one included.\<close>

fun states :: "state \<Rightarrow> op list \<Rightarrow> state list" where
  "states s [] = [s]"
| "states s (x # xs) = s # states (step s x) xs"

text \<open>
  The buffer that step 2 of \<^verbatim>\<open>handleMessage\<close> obtains from a message, when it has a
  payload that is not empty and the decoder accepts it.
\<close>

definition scheduled_buffer :: "platform \<Rightarrow> LiveServerMessage \<Rightarrow> AudioBuffer option" where
  "scheduled_buffer P m =
     (case base64Audio m of
        Inr (Some b64) \<Rightarrow>
          if b64 = [] then None
          else (case decodeAudioData P b64 of Inl e \<Rightarrow> None | Inr buf \<Rightarrow> Some buf)
      | other \<Rightarrow> None)"

definition scheduled_duration :: "platform \<times> LiveServerMessage \<Rightarrow> real" where
  "scheduled_duration c = (case scheduled_buffer (fst c) (snd c) of None \<Rightarrow> 0 | Some b \<Rightarrow> duration b)"

definition deliver :: "platform \<times> LiveServerMessage \<Rightarrow> op" where
  "deliver c = OnMessage (fst c) (snd c)"

text \<open>A delivery that schedules a buffer and does not interrupt.\<close>

definition schedules :: "platform \<times> LiveServerMessage \<Rightarrow> bool" where
  "schedules c = (scheduled_buffer (fst c) (snd c) \<noteq> None \<and> \<not> interrupts (deliver c))"

text \<open>A browser in which every \<^verbatim>\<open>source.stop()\<close> throws.\<close>

definition stubborn :: platform where
  "stubborn = \<lparr>currentTime = 3, decodeAudioData = (\<lambda>b. Inl DecodeError),
                stop_throws = (\<lambda>src. True)\<rparr>"

text \<open>The connected state after two chunks of half a second, at clocks 1 and 1.2.\<close>

definition playing :: state where
  "playing = run connected
     [OnMessage (player 1 (decodes_to half_second)) (chunk ''UklG''),
      OnMessage (player (6 / 5) (decodes_to half_second)) (chunk ''UklG'')]"

text \<open>A message with an output fragment, an input fragment and the turn-complete flag.\<close>

definition both_fragments :: LiveServerMessage where
  "both_fragments = LiveServerMessage (Some \<lparr>modelTurn = None, turnComplete = True,
      interrupted = False, inputTranscription = Some (Transcription (Some ''Hi'')),
      outputTranscription = Some (Transcription (Some ''Hello''))\<rparr>)"

text \<open>A message with an output fragment, the turn-complete flag, audio and the signal.\<close>

definition everything :: LiveServerMessage where
  "everything = LiveServerMessage (Some \<lparr>
      modelTurn = Some (Content (Some [Part (Some (Blob (Some ''UklG'')))])),
      turnComplete = True, interrupted = True, inputTranscription = None,
      outputTranscription = Some (Transcription (Some ''Hello''))\<rparr>)"

text \<open>A browser whose decoder rejects every payload.\<close>

definition rejecting :: "real \<Rightarrow> platform" where
  "rejecting t = player t (\<lambda>b. Inl DecodeError)"



text \<open>The same with another stream, for a second call.\<close>

definition granted_again :: env where
  "granted_again = \<lparr>apiKey = Some ''key'', getUserMedia = Inr (MediaStream [8])\<rparr>"

text \<open>An environment with an API key in which the microphone is refused.\<close>

definition mic_denied :: env where
  "mic_denied = \<lparr>apiKey = Some ''key'', getUserMedia = Inl AcquisitionError\<rparr>"

text \<open>A message with the interruption signal and a model turn that has no parts.\<close>

definition partless_interruption :: LiveServerMessage where
  "partless_interruption = LiveServerMessage (Some \<lparr>modelTurn = Some (Content None),
      turnComplete = False, interrupted = True, inputTranscription = None,
      outputTranscription = None\<rparr>)"

text \<open>The durations of a sequence of deliveries added to \<open>a\<close> one after another.\<close>

definition add_durations :: "real \<Rightarrow> (platform \<times> LiveServerMessage) list \<Rightarrow> real" where
  "add_durations a cs = foldl (\<lambda>x c. x + scheduled_duration c) a cs"

text \<open>A run that adds a blank text and a real one, then completes a turn, is interrupted and stopped.\<close>

definition chat :: "op list" where
  "chat = [StartSession granted, GetUserMediaSettled, OnOpen,
           AddMessage ''k3x9'' 1700000000000 user [CHR '' '', CHR 0x09, CHR 0x0A],
           AddMessage ''p07q'' 1700000000001 user ''What is KVL?'',
           OnMessage (player 1 (decodes_to half_second)) both_fragments,
           OnMessage (player 1 (decodes_to half_second)) interruption,
           StopSession]"

section \<open>Basic facts\<close>

lemma start_times_append: "start_times (xs @ ys) = start_times xs @ start_times ys"
  by (induction xs rule: start_times.induct) auto

lemma stops_append: "stops (xs @ ys) = stops xs @ stops ys"
  by (induction xs rule: stops.induct) auto

lemma stops_SourceStop: "stops (map SourceStop xs) = xs"
  by (induction xs) auto

lemma uncaught_append: "uncaught (xs @ ys) = uncaught xs @ uncaught ys"
  by (induction xs rule: uncaught.induct) auto

lemma uncaught_SourceStop: "uncaught (map SourceStop xs) = []"
  by (induction xs) auto

lemma run_Cons: "run s (x # xs) = run (step s x) xs"
  by (simp add: run_def)

lemma run_Nil: "run s [] = s"
  by (simp add: run_def)

lemma handleTranscription_same:
  "events (handleTranscription m s) = events s"
  "nextStartTimeRef (handleTranscription m s) = nextStartTimeRef s"
  "outAudioContextRef (handleTranscription m s) = outAudioContextRef s"
  "activeSourcesRef (handleTranscription m s) = activeSourcesRef s"
  "fresh (handleTranscription m s) = fresh s"
  "status (handleTranscription m s) = status s"
  "messages (handleTranscription m s) = messages s"
  by (simp_all add: handleTranscription_def split: option.splits)

lemma handleTranscription_refs:
  "audioContextRef (handleTranscription m s) = audioContextRef s"
  "sessionPromiseRef (handleTranscription m s) = sessionPromiseRef s"
  "micStreamRef (handleTranscription m s) = micStreamRef s"
  "scriptProcessorRef (handleTranscription m s) = scriptProcessorRef s"
  by (simp_all add: handleTranscription_def split: option.splits)

lemma handleTurnComplete_id: "handleTurnComplete m s = s"
  by (simp add: handleTurnComplete_def split: option.splits)

lemma handleMessage_read:
  "base64Audio m = Inr payload \<Longrightarrow>
     handleMessage P m s = handleInterrupted P m (handleAudio P payload (handleTranscription m s))"
  by (simp add: handleMessage_def handleTurnComplete_id Let_def)

lemma handleMessage_thrown:
  "base64Audio m = Inl e \<Longrightarrow>
     handleMessage P m s =
       (handleTranscription m s)\<lparr>events := events (handleTranscription m s) @ [Uncaught e]\<rparr>"
  by (simp add: handleMessage_def handleTurnComplete_id Let_def)

lemma handleAudio_scheduled:
  assumes "b64 \<noteq> []" "outAudioContextRef s = Some ctx" "decodeAudioData P b64 = Inr buf"
  shows "handleAudio P (Some b64) s = s\<lparr>fresh := Suc (fresh s),
           events := events s @ [SourceStart (fresh s) (max (nextStartTimeRef s) (currentTime P))],
           nextStartTimeRef := max (nextStartTimeRef s) (currentTime P) + duration buf,
           activeSourcesRef := Set_add (fresh s) (activeSourcesRef s)\<rparr>"
  using assms by (simp add: handleAudio_def Let_def)

lemma handleAudio_rejected:
  assumes "b64 \<noteq> []" "outAudioContextRef s = Some ctx" "decodeAudioData P b64 = Inl err"
  shows "handleAudio P (Some b64) s =
           s\<lparr>nextStartTimeRef := max (nextStartTimeRef s) (currentTime P),
             events := events s @ [ConsoleError err]\<rparr>"
  using assms by (simp add: handleAudio_def Let_def)

lemma handleAudio_events:
  "\<exists>ev. events (handleAudio P payload s) = events s @ ev \<and> uncaught ev = [] \<and> stops ev = []"
  by (auto simp add: handleAudio_def Let_def split: option.splits sum.splits)

lemma handleAudio_active:
  "set (activeSourcesRef s) \<subseteq> set (activeSourcesRef (handleAudio P payload s))"
  by (auto simp add: handleAudio_def Let_def Set_add_def split: option.splits sum.splits)

lemma handleAudio_same:
  "status (handleAudio P payload s) = status s"
  "messages (handleAudio P payload s) = messages s"
  "currentInputText (handleAudio P payload s) = currentInputText s"
  "currentOutputText (handleAudio P payload s) = currentOutputText s"
  by (simp_all add: handleAudio_def Let_def split: option.splits sum.splits)

lemma foldl_try_stop: "foldl (try_stop P) evs xs = evs @ map SourceStop xs"
  by (induction xs arbitrary: evs) (simp_all add: try_stop_def split: sum.splits)

lemma handleInterrupted_not:
  "serverContent m = Some sc \<Longrightarrow> \<not> interrupted sc \<Longrightarrow> handleInterrupted P m s = s"
  by (simp add: handleInterrupted_def)

lemma handleInterrupted_yes:
  "serverContent m = Some sc \<Longrightarrow> interrupted sc \<Longrightarrow>
     handleInterrupted P m s =
       s\<lparr>events := events s @ map SourceStop (activeSourcesRef s),
         activeSourcesRef := [], nextStartTimeRef := 0\<rparr>"
  by (simp add: handleInterrupted_def foldl_try_stop)

lemma handleInterrupted_not_interrupting:
  "\<not> interrupts (OnMessage P m) \<Longrightarrow> handleInterrupted P m s = s"
  by (simp add: handleInterrupted_def split: option.splits)

lemma handleInterrupted_same:
  "status (handleInterrupted P m s) = status s"
  "messages (handleInterrupted P m s) = messages s"
  "currentInputText (handleInterrupted P m s) = currentInputText s"
  "currentOutputText (handleInterrupted P m s) = currentOutputText s"
  by (simp_all add: handleInterrupted_def split: option.splits)

lemma schedule_rule:
  assumes "serverContent m = Some sc" "\<not> interrupted sc" "base64Audio m = Inr (Some b64)"
    "b64 \<noteq> []" "outAudioContextRef s = Some ctx" "decodeAudioData P b64 = Inr buf"
  shows "events (handleMessage P m s) =
           events s @ [SourceStart (fresh s) (max (nextStartTimeRef s) (currentTime P))]"
    "nextStartTimeRef (handleMessage P m s) =
       max (nextStartTimeRef s) (currentTime P) + duration buf"
    "outAudioContextRef (handleMessage P m s) = Some ctx"
    "activeSourcesRef (handleMessage P m s) = Set_add (fresh s) (activeSourcesRef s)"
  using assms
  by (simp_all add: handleMessage_read handleInterrupted_not
      handleAudio_scheduled[where ctx=ctx and buf=buf] handleTranscription_same)

lemma chunk_simps:
  "serverContent (chunk b) = Some \<lparr>
      modelTurn = Some (Content (Some [Part (Some (Blob (Some b)))])),
      turnComplete = False, interrupted = False, inputTranscription = None,
      outputTranscription = None\<rparr>"
  "base64Audio (chunk b) = Inr (Some b)"
  by (simp_all add: chunk_def base64Audio_def)

lemma three_half_second_chunks:
  assumes s: "nextStartTimeRef s = 0" "outAudioContextRef s = Some ctx"
   and b: "b1 \<noteq> []" "b2 \<noteq> []" "b3 \<noteq> []"
   and d: "decodeAudioData P1 b1 = Inr buf1" "decodeAudioData P2 b2 = Inr buf2"
     "decodeAudioData P3 b3 = Inr buf3"
   and du: "duration buf1 = 1/2" "duration buf2 = 1/2" "duration buf3 = 1/2"
   and c: "currentTime P1 = 1" "currentTime P2 \<le> 3/2" "currentTime P3 \<le> 2"
 shows "start_times (events (run s [OnMessage P1 (chunk b1), OnMessage P2 (chunk b2),
                                     OnMessage P3 (chunk b3)]))
    = start_times (events s) @ [1, 3/2, 2]"
proof -
  let ?s1 = "handleMessage P1 (chunk b1) s"
  let ?s2 = "handleMessage P2 (chunk b2) ?s1"
  let ?s3 = "handleMessage P3 (chunk b3) ?s2"
  note r1 = schedule_rule[OF chunk_simps(1) _ chunk_simps(2) b(1) s(2) d(1), simplified]
  note r2 = schedule_rule[OF chunk_simps(1) _ chunk_simps(2) b(2) r1(3) d(2), simplified]
  note r3 = schedule_rule[OF chunk_simps(1) _ chunk_simps(2) b(3) r2(3) d(3), simplified]
  have n1: "nextStartTimeRef ?s1 = 3/2" using r1(2) s(1) c(1) du(1) by simp
  have n2: "nextStartTimeRef ?s2 = 2" using r2(2) n1 c(2) du(2) by (simp add: max_def)
  have "events ?s3 = events s @ [SourceStart (fresh s) 1, SourceStart (fresh ?s1) (3/2),
      SourceStart (fresh ?s2) 2]"
    using r3(1) r2(1) r1(1) n1 n2 s(1) c by (simp add: max_def)
  then show ?thesis by (simp add: run_def start_times_append)
qed

lemma connected_eq:
  "connected = \<lparr> status = CONNECTED, messages = [], currentInputText = [],
            currentOutputText = [], audioContextRef = Some 0, outAudioContextRef = Some 1,
            nextStartTimeRef = 0, activeSourcesRef = [], sessionPromiseRef = Some 2,
            micStreamRef = Some (MediaStream [7]), scriptProcessorRef = Some 3,
            events = [CreateContext 0 16000, CreateContext 1 24000, Connect 2,
                      CreateScriptProcessor 0 3], fresh = 4, awaiting = [] \<rparr>"
  by (simp add: connected_def run_def granted_def init_def startSession_def
      startSession_resumed_def onopen_def Let_def)

lemma half_second_duration: "duration half_second = 1 / 2"
  by (simp add: duration_def half_second_def)

lemma player_simps:
  "currentTime (player t dec) = t" "decodeAudioData (player t dec) = dec"
  "stop_throws (player t dec) = (\<lambda>src. False)"
  by (simp_all add: player_def)

lemmas evaluate =
  run_def handleMessage_def handleTranscription_def handleTurnComplete_def handleAudio_def
  handleInterrupted_def chunk_def base64Audio_def player_def decodes_to_def half_second_def
  duration_def Set_add_def Let_def foldl_try_stop

lemma playing_eq:
  "playing = \<lparr> status = CONNECTED, messages = [], currentInputText = [],
            currentOutputText = [], audioContextRef = Some 0, outAudioContextRef = Some 1,
            nextStartTimeRef = 2, activeSourcesRef = [4, 5], sessionPromiseRef = Some 2,
            micStreamRef = Some (MediaStream [7]), scriptProcessorRef = Some 3,
            events = [CreateContext 0 16000, CreateContext 1 24000, Connect 2,
                      CreateScriptProcessor 0 3, SourceStart 4 1, SourceStart 5 (3 / 2)],
            fresh = 6, awaiting = [] \<rparr>"
  by (simp add: playing_def connected_eq evaluate)

section \<open>Gapless scheduling\<close>

text \<open>
  Claim C1. A call of \<^verbatim>\<open>handleMessage\<close> whose audio branch decodes a buffer starts
  the new source at \<open>max nextStartTime clockNow\<close> and leaves the cursor at that time plus
  the duration of the buffer; this is how the branch ends, and how the whole call ends
  when the message carries no interruption. For three buffers of half a second, the
  cursor at 0 and the first call at clock 1, the starts are 1, 1.5 and 2 provided the
  second call reads a clock of at most 1.5 and the third of at most 2.
\<close>

theorem handleMessage_schedule:
  "(\<forall>(P::platform) m (s::state) b64 ctx buf.
      base64Audio m = Inr (Some b64) \<and> b64 \<noteq> [] \<and> outAudioContextRef s = Some ctx \<and>
      decodeAudioData P b64 = Inr buf \<longrightarrow>
        events (handleAudio P (Some b64) s) =
          events s @ [SourceStart (fresh s) (max (nextStartTimeRef s) (currentTime P))] \<and>
        nextStartTimeRef (handleAudio P (Some b64) s) =
          max (nextStartTimeRef s) (currentTime P) + duration buf \<and>
        (\<forall>sc. serverContent m = Some sc \<and> \<not> interrupted sc \<longrightarrow>
          events (handleMessage P m s) =
            events s @ [SourceStart (fresh s) (max (nextStartTimeRef s) (currentTime P))] \<and>
          nextStartTimeRef (handleMessage P m s) =
            max (nextStartTimeRef s) (currentTime P) + duration buf))
   \<and>
   (\<forall>(s::state) ctx (P1::platform) (P2::platform) (P3::platform) b1 b2 b3 buf1 buf2 buf3.
      nextStartTimeRef s = 0 \<and> outAudioContextRef s = Some ctx \<and>
      b1 \<noteq> [] \<and> b2 \<noteq> [] \<and> b3 \<noteq> [] \<and>
      decodeAudioData P1 b1 = Inr buf1 \<and> decodeAudioData P2 b2 = Inr buf2 \<and>
      decodeAudioData P3 b3 = Inr buf3 \<and>
      duration buf1 = 1 / 2 \<and> duration buf2 = 1 / 2 \<and> duration buf3 = 1 / 2 \<and>
      currentTime P1 = 1 \<and> currentTime P2 \<le> 3 / 2 \<and> currentTime P3 \<le> 2 \<longrightarrow>
        start_times (events (run s [OnMessage P1 (chunk b1), OnMessage P2 (chunk b2),
                                    OnMessage P3 (chunk b3)])) =
          start_times (events s) @ [1, 3 / 2, 2])"
proof (intro conjI allI impI)
  fix P :: platform and m and s :: state and b64 ctx buf
  assume a: "base64Audio m = Inr (Some b64) \<and> b64 \<noteq> [] \<and> outAudioContextRef s = Some ctx \<and>
      decodeAudioData P b64 = Inr buf"
  then have eq: "handleAudio P (Some b64) s = s\<lparr>fresh := Suc (fresh s),
           events := events s @ [SourceStart (fresh s) (max (nextStartTimeRef s) (currentTime P))],
           nextStartTimeRef := max (nextStartTimeRef s) (currentTime P) + duration buf,
           activeSourcesRef := Set_add (fresh s) (activeSourcesRef s)\<rparr>"
    using handleAudio_scheduled by blast
  show "events (handleAudio P (Some b64) s) =
          events s @ [SourceStart (fresh s) (max (nextStartTimeRef s) (currentTime P))]"
    by (simp add: eq)
  show "nextStartTimeRef (handleAudio P (Some b64) s) =
          max (nextStartTimeRef s) (currentTime P) + duration buf"
    by (simp add: eq)
  fix sc
  assume b: "serverContent m = Some sc \<and> \<not> interrupted sc"
  show "events (handleMessage P m s) =
            events s @ [SourceStart (fresh s) (max (nextStartTimeRef s) (currentTime P))]"
    using a b schedule_rule(1) by blast
  show "nextStartTimeRef (handleMessage P m s) =
            max (nextStartTimeRef s) (currentTime P) + duration buf"
    using a b schedule_rule(2) by blast
next
  fix s :: state and ctx and P1 :: platform and P2 :: platform and P3 :: platform
    and b1 b2 b3 buf1 buf2 buf3
  assume "nextStartTimeRef s = 0 \<and> outAudioContextRef s = Some ctx \<and>
      b1 \<noteq> [] \<and> b2 \<noteq> [] \<and> b3 \<noteq> [] \<and>
      decodeAudioData P1 b1 = Inr buf1 \<and> decodeAudioData P2 b2 = Inr buf2 \<and>
      decodeAudioData P3 b3 = Inr buf3 \<and>
      duration buf1 = 1 / 2 \<and> duration buf2 = 1 / 2 \<and> duration buf3 = 1 / 2 \<and>
      currentTime P1 = 1 \<and> currentTime P2 \<le> 3 / 2 \<and> currentTime P3 \<le> 2"
  then show "start_times (events (run s [OnMessage P1 (chunk b1), OnMessage P2 (chunk b2),
                                    OnMessage P3 (chunk b3)])) =
          start_times (events s) @ [1, 3 / 2, 2]"
    using three_half_second_chunks[of s ctx b1 b2 b3 P1 buf1 P2 buf2 P3 buf3] by blast
qed

text \<open>The rule and the example at the connected state, the calls at clocks 1, 1.2 and 1.4.\<close>

theorem handleMessage_schedule_witness:
  "start_times (events (run connected
      [OnMessage (player 1 (decodes_to half_second)) (chunk ''UklG''),
       OnMessage (player (6 / 5) (decodes_to half_second)) (chunk ''UklG''),
       OnMessage (player (7 / 5) (decodes_to half_second)) (chunk ''UklG'')])) = [1, 3 / 2, 2]
   \<and> nextStartTimeRef (handleMessage (player 1 (decodes_to half_second)) (chunk ''UklG'') connected)
       = 3 / 2"
proof -
  have ex: "start_times (events (run connected
      [OnMessage (player 1 (decodes_to half_second)) (chunk ''UklG''),
       OnMessage (player (6 / 5) (decodes_to half_second)) (chunk ''UklG''),
       OnMessage (player (7 / 5) (decodes_to half_second)) (chunk ''UklG'')])) =
      start_times (events connected) @ [1, 3 / 2, 2]"
    using handleMessage_schedule[THEN conjunct2, rule_format,
        of connected 1 "''UklG''" "''UklG''" "''UklG''"
           "player 1 (decodes_to half_second)" half_second
           "player (6 / 5) (decodes_to half_second)" half_second
           "player (7 / 5) (decodes_to half_second)" half_second]
    by (simp add: connected_eq player_simps decodes_to_def half_second_duration)
  have ru: "nextStartTimeRef (handleMessage (player 1 (decodes_to half_second)) (chunk ''UklG'') connected)
      = max (nextStartTimeRef connected) 1 + duration half_second"
    using handleMessage_schedule[THEN conjunct1, rule_format,
        of "chunk ''UklG''" "''UklG''" connected 1 "player 1 (decodes_to half_second)" half_second,
        THEN conjunct2, THEN conjunct2, rule_format, of "the (serverContent (chunk ''UklG''))"]
    by (simp add: connected_eq player_simps decodes_to_def chunk_simps)
  show ?thesis using ex ru by (simp add: connected_eq half_second_duration)
qed

text \<open>
  With the second call at clock 1.7 and the third at 2.4 the starts are 1, 1.7 and 2.4:
  a chunk that arrives after the cursor starts at the clock.
\<close>

theorem late_chunks_counterexample:
  "nextStartTimeRef connected = 0 \<and>
   start_times (events (run connected
      [OnMessage (player 1 (decodes_to half_second)) (chunk ''UklG''),
       OnMessage (player (17 / 10) (decodes_to half_second)) (chunk ''UklG''),
       OnMessage (player (12 / 5) (decodes_to half_second)) (chunk ''UklG'')])) = [1, 17 / 10, 12 / 5]
   \<and> [1, 17 / 10, 12 / 5] \<noteq> [1, 3 / 2, 2 :: real]"
  by (simp add: connected_eq evaluate)

section \<open>The cursor over a sequence of chunks\<close>

lemma duration_nonneg: "0 \<le> duration b"
  by (simp add: duration_def)

lemma handleAudio_cursor_mono:
  "nextStartTimeRef s \<le> nextStartTimeRef (handleAudio P payload s)"
  using duration_nonneg
  by (auto simp add: handleAudio_def Let_def add_increasing2 max.coboundedI1
      split: option.splits sum.splits)

lemma stopSession_cursor: "nextStartTimeRef (stopSession s) = nextStartTimeRef s"
  by (simp add: stopSession_def Let_def split: option.splits)

lemma startSession_cursor: "nextStartTimeRef (startSession E s) = nextStartTimeRef s"
  by (simp add: startSession_def Let_def)

lemma startSession_resumed_cursor:
  "nextStartTimeRef (startSession_resumed s) = nextStartTimeRef s"
  by (simp add: startSession_resumed_def Let_def split: list.splits sum.splits)

lemma step_cursor_mono:
  "\<not> interrupts x \<Longrightarrow> nextStartTimeRef s \<le> nextStartTimeRef (step s x)"
proof (cases x)
  case (OnMessage P m)
  assume ni: "\<not> interrupts x"
  show ?thesis
  proof (cases "base64Audio m")
    case (Inl e)
    then show ?thesis using OnMessage
      by (simp add: handleMessage_thrown handleTranscription_same)
  next
    case (Inr payload)
    with OnMessage ni have "handleMessage P m s = handleAudio P payload (handleTranscription m s)"
      by (simp add: handleMessage_read handleInterrupted_not_interrupting)
    with OnMessage show ?thesis
      using handleAudio_cursor_mono[of "handleTranscription m s" P payload]
      by (simp add: handleTranscription_same)
  qed
qed (simp_all add: stopSession_cursor startSession_cursor startSession_resumed_cursor
      onopen_def onerror_def onclose_def addMessage_def sourceEnded_def Let_def
      split: option.splits)

lemma states_cursor_lower:
  "\<forall>x\<in>set xs. \<not> interrupts x \<Longrightarrow> s' \<in> set (states s xs) \<Longrightarrow>
     nextStartTimeRef s \<le> nextStartTimeRef s'"
proof (induction xs arbitrary: s)
  case Nil
  then show ?case by simp
next
  case (Cons x xs)
  from Cons.prems(1) have x: "\<not> interrupts x" and xs: "\<forall>y\<in>set xs. \<not> interrupts y" by simp_all
  from Cons.prems(2) consider "s' = s" | "s' \<in> set (states (step s x) xs)" by auto
  then show ?case
  proof cases
    case 1
    then show ?thesis by simp
  next
    case 2
    from Cons.IH[OF xs 2] step_cursor_mono[OF x, of s] show ?thesis by linarith
  qed
qed

lemma states_cursor_sorted:
  "\<forall>x\<in>set xs. \<not> interrupts x \<Longrightarrow> sorted (map nextStartTimeRef (states s xs))"
proof (induction xs arbitrary: s)
  case Nil
  then show ?case by simp
next
  case (Cons x xs)
  then have xs: "\<forall>y\<in>set xs. \<not> interrupts y" and x: "\<not> interrupts x" by simp_all
  have "\<forall>s'\<in>set (states (step s x) xs). nextStartTimeRef s \<le> nextStartTimeRef s'"
  proof
    fix s' assume "s' \<in> set (states (step s x) xs)"
    from states_cursor_lower[OF xs this] step_cursor_mono[OF x, of s]
    show "nextStartTimeRef s \<le> nextStartTimeRef s'" by linarith
  qed
  with Cons.IH[OF xs] show ?case by simp
qed

lemma schedules_step:
  assumes "schedules c" "outAudioContextRef s = Some ctx"
  shows "nextStartTimeRef (step s (deliver c)) =
           max (nextStartTimeRef s) (currentTime (fst c)) + scheduled_duration c"
    and "outAudioContextRef (step s (deliver c)) = Some ctx"
proof -
  obtain P m where c: "c = (P, m)" by (cases c)
  from assms(1) c obtain b64 buf where b: "base64Audio m = Inr (Some b64)" "b64 \<noteq> []"
      "decodeAudioData P b64 = Inr buf" and ni: "\<not> interrupts (OnMessage P m)"
    by (auto simp add: schedules_def scheduled_buffer_def deliver_def
        split: option.splits if_splits sum.splits)
  have hm: "handleMessage P m s = handleAudio P (Some b64) (handleTranscription m s)"
    by (simp add: handleMessage_read[OF b(1)] handleInterrupted_not_interrupting[OF ni])
  have oc: "outAudioContextRef (handleTranscription m s) = Some ctx"
    using assms(2) by (simp add: handleTranscription_same)
  have sd: "scheduled_duration c = duration buf"
    using b c by (simp add: scheduled_duration_def scheduled_buffer_def)
  show "nextStartTimeRef (step s (deliver c)) =
           max (nextStartTimeRef s) (currentTime (fst c)) + scheduled_duration c"
    using c hm sd
    by (simp add: deliver_def handleAudio_scheduled[OF b(2) oc b(3)] handleTranscription_same)
  show "outAudioContextRef (step s (deliver c)) = Some ctx"
    using c hm oc by (simp add: deliver_def handleAudio_scheduled[OF b(2) oc b(3)])
qed

lemma add_durations_Nil: "add_durations a [] = a"
  by (simp add: add_durations_def)

lemma add_durations_Cons:
  "add_durations a (c # cs) = add_durations (a + scheduled_duration c) cs"
  by (simp add: add_durations_def)

lemma add_durations_mono: "a \<le> b \<Longrightarrow> add_durations a cs \<le> add_durations b cs"
  by (induction cs arbitrary: a b) (simp_all add: add_durations_Nil add_durations_Cons)

lemma on_time_cursor:
  assumes "outAudioContextRef s = Some ctx" "\<forall>c\<in>set cs. schedules c"
    "\<forall>k<length cs. currentTime (fst (cs ! k)) \<le> add_durations (nextStartTimeRef s) (take k cs)"
  shows "nextStartTimeRef (run s (map deliver cs)) = add_durations (nextStartTimeRef s) cs"
  using assms
proof (induction cs arbitrary: s)
  case Nil
  then show ?case by (simp add: run_Nil add_durations_Nil)
next
  case (Cons c cs)
  let ?s1 = "step s (deliver c)"
  from Cons.prems(2) have c: "schedules c" and cs: "\<forall>c\<in>set cs. schedules c" by simp_all
  from Cons.prems(3) have "currentTime (fst ((c # cs) ! 0)) \<le>
      add_durations (nextStartTimeRef s) (take 0 (c # cs))" by blast
  then have "currentTime (fst c) \<le> nextStartTimeRef s" by (simp add: add_durations_Nil)
  with schedules_step[OF c Cons.prems(1)]
  have n1: "nextStartTimeRef ?s1 = nextStartTimeRef s + scheduled_duration c"
    and o1: "outAudioContextRef ?s1 = Some ctx" by simp_all
  have "\<forall>k<length cs. currentTime (fst (cs ! k)) \<le>
        add_durations (nextStartTimeRef ?s1) (take k cs)"
  proof (intro allI impI)
    fix k assume "k < length cs"
    then have "Suc k < length (c # cs)" by simp
    with Cons.prems(3) have "currentTime (fst ((c # cs) ! Suc k)) \<le>
        add_durations (nextStartTimeRef s) (take (Suc k) (c # cs))" by blast
    then show "currentTime (fst (cs ! k)) \<le> add_durations (nextStartTimeRef ?s1) (take k cs)"
      using n1 by (simp add: add_durations_Cons)
  qed
  from Cons.IH[OF o1 cs this] n1 show ?case by (simp add: run_Cons add_durations_Cons)
qed

lemma cursor_at_least:
  assumes "outAudioContextRef s = Some ctx" "\<forall>c\<in>set cs. schedules c"
  shows "add_durations (nextStartTimeRef s) cs \<le> nextStartTimeRef (run s (map deliver cs))"
  using assms
proof (induction cs arbitrary: s)
  case Nil
  then show ?case by (simp add: run_Nil add_durations_Nil)
next
  case (Cons c cs)
  let ?s1 = "step s (deliver c)"
  from Cons.prems(2) have c: "schedules c" and cs: "\<forall>c\<in>set cs. schedules c" by simp_all
  from schedules_step[OF c Cons.prems(1)]
  have n1: "nextStartTimeRef s + scheduled_duration c \<le> nextStartTimeRef ?s1"
    and o1: "outAudioContextRef ?s1 = Some ctx" by simp_all
  from add_durations_mono[OF n1, of cs] Cons.IH[OF o1 cs]
  show ?case by (simp add: run_Cons add_durations_Cons)
qed

lemma deliver_simp: "deliver (P, m) = OnMessage P m"
  by (simp add: deliver_def)

lemma schedules_not_interrupts: "schedules c \<Longrightarrow> \<not> interrupts (deliver c)"
  by (simp add: schedules_def)

lemma schedules_chunk:
  "b64 \<noteq> [] \<Longrightarrow> decodeAudioData P b64 = Inr buf \<Longrightarrow> schedules (P, chunk b64)"
  by (simp add: schedules_def scheduled_buffer_def deliver_def chunk_simps)

lemma scheduled_duration_chunk:
  "b64 \<noteq> [] \<Longrightarrow> decodeAudioData P b64 = Inr buf \<Longrightarrow>
     scheduled_duration (P, chunk b64) = duration buf"
  by (simp add: scheduled_duration_def scheduled_buffer_def chunk_simps)

text \<open>
  Claim C7. Over any run without an interruption the cursor never decreases. For a
  sequence of deliveries that each schedule a buffer, write \<open>add_durations a\<close> for the
  result of adding the durations to \<open>a\<close> one after another, in the order of the calls,
  which is how the code adds them. The cursor ends at no less than \<open>add_durations\<close> of
  the first start time. It ends at \<open>add_durations\<close> of the first clock value when the
  cursor is not ahead of the clock at the first call and no later call reads a clock
  beyond the cursor it finds, that is beyond \<open>add_durations\<close> of the first clock value
  over the calls made so far.
\<close>

theorem cursor_after_schedules:
  "(\<forall>(s::state) xs. (\<forall>x\<in>set xs. \<not> interrupts x) \<longrightarrow>
       sorted (map nextStartTimeRef (states s xs)))
   \<and>
   (\<forall>(s::state) ctx c1 cs.
      outAudioContextRef s = Some ctx \<and> (\<forall>c\<in>set (c1 # cs). schedules c) \<longrightarrow>
        add_durations (max (nextStartTimeRef s) (currentTime (fst c1))) (c1 # cs)
          \<le> nextStartTimeRef (run s (map deliver (c1 # cs))) \<and>
        (nextStartTimeRef s \<le> currentTime (fst c1) \<and>
         (\<forall>k<length cs. currentTime (fst (cs ! k)) \<le>
              add_durations (currentTime (fst c1)) (take (Suc k) (c1 # cs)))
         \<longrightarrow>
         nextStartTimeRef (run s (map deliver (c1 # cs))) =
           add_durations (currentTime (fst c1)) (c1 # cs)))"
proof (intro conjI allI impI)
  fix s :: state and xs
  assume "\<forall>x\<in>set xs. \<not> interrupts x"
  then show "sorted (map nextStartTimeRef (states s xs))"
    by (rule states_cursor_sorted)
next
  fix s :: state and ctx c1 cs
  assume a: "outAudioContextRef s = Some ctx \<and> (\<forall>c\<in>set (c1 # cs). schedules c)"
  then have c1: "schedules c1" and cs: "\<forall>c\<in>set cs. schedules c" by simp_all
  let ?s1 = "step s (deliver c1)"
  from a have ctx: "outAudioContextRef s = Some ctx" by simp
  have n1: "nextStartTimeRef ?s1 =
      max (nextStartTimeRef s) (currentTime (fst c1)) + scheduled_duration c1"
    and o1: "outAudioContextRef ?s1 = Some ctx"
    using schedules_step[OF c1 ctx] by simp_all
  show "add_durations (max (nextStartTimeRef s) (currentTime (fst c1))) (c1 # cs)
          \<le> nextStartTimeRef (run s (map deliver (c1 # cs)))"
    using cursor_at_least[OF o1 cs] n1 by (simp add: run_Cons add_durations_Cons)
  assume b: "nextStartTimeRef s \<le> currentTime (fst c1) \<and>
         (\<forall>k<length cs. currentTime (fst (cs ! k)) \<le>
              add_durations (currentTime (fst c1)) (take (Suc k) (c1 # cs)))"
  then have n1': "nextStartTimeRef ?s1 = currentTime (fst c1) + scheduled_duration c1"
    using n1 by simp
  have "\<forall>k<length cs. currentTime (fst (cs ! k)) \<le>
        add_durations (nextStartTimeRef ?s1) (take k cs)"
    using b n1' by (simp add: add_durations_Cons)
  from on_time_cursor[OF o1 cs this] n1'
  show "nextStartTimeRef (run s (map deliver (c1 # cs))) =
           add_durations (currentTime (fst c1)) (c1 # cs)"
    by (simp add: run_Cons add_durations_Cons)
qed

lemma three_chunks_schedule:
  "\<forall>c\<in>set [(player 1 (decodes_to half_second), chunk ''UklG''),
            (player (6 / 5) (decodes_to half_second), chunk ''UklG''),
            (player (7 / 5) (decodes_to half_second), chunk ''UklG'')]. schedules c"
  by (simp add: schedules_chunk[where buf = half_second] player_simps decodes_to_def)

text \<open>
  Three chunks of half a second at clocks 1, 1.2 and 1.4: the cursor goes through
  0, 1.5, 2 and 2.5.
\<close>

theorem cursor_after_schedules_witness:
  "nextStartTimeRef (run connected
      [OnMessage (player 1 (decodes_to half_second)) (chunk ''UklG''),
       OnMessage (player (6 / 5) (decodes_to half_second)) (chunk ''UklG''),
       OnMessage (player (7 / 5) (decodes_to half_second)) (chunk ''UklG'')])
     = 1 + 1 / 2 + 1 / 2 + 1 / 2
   \<and> sorted (map nextStartTimeRef (states connected
      [OnMessage (player 1 (decodes_to half_second)) (chunk ''UklG''),
       OnMessage (player (6 / 5) (decodes_to half_second)) (chunk ''UklG''),
       OnMessage (player (7 / 5) (decodes_to half_second)) (chunk ''UklG'')]))"
proof -
  let ?c1 = "(player 1 (decodes_to half_second), chunk ''UklG'')"
  let ?c2 = "(player (6 / 5) (decodes_to half_second), chunk ''UklG'')"
  let ?c3 = "(player (7 / 5) (decodes_to half_second), chunk ''UklG'')"
  have d: "scheduled_duration ?c1 = 1 / 2" "scheduled_duration ?c2 = 1 / 2"
    "scheduled_duration ?c3 = 1 / 2"
    by (simp_all add: scheduled_duration_chunk[where buf = half_second] player_simps
        decodes_to_def half_second_duration)
  have late: "\<forall>k<length [?c2, ?c3]. currentTime (fst ([?c2, ?c3] ! k)) \<le>
      add_durations (currentTime (fst ?c1)) (take (Suc k) [?c1, ?c2, ?c3])"
    by (auto simp add: d player_simps less_Suc_eq add_durations_Cons add_durations_Nil)
  have "nextStartTimeRef (run connected (map deliver [?c1, ?c2, ?c3])) =
      add_durations (currentTime (fst ?c1)) [?c1, ?c2, ?c3]"
    using cursor_after_schedules[THEN conjunct2, rule_format, of connected 1 ?c1 "[?c2, ?c3]",
        THEN conjunct2, rule_format] three_chunks_schedule late
    by (simp add: connected_eq player_simps)
  then have sum: "nextStartTimeRef (run connected (map deliver [?c1, ?c2, ?c3])) =
      1 + 1 / 2 + 1 / 2 + 1 / 2"
    by (simp add: d player_simps add_durations_Cons add_durations_Nil)
  have "\<forall>x\<in>set (map deliver [?c1, ?c2, ?c3]). \<not> interrupts x"
    using three_chunks_schedule schedules_not_interrupts by simp
  then have "sorted (map nextStartTimeRef (states connected (map deliver [?c1, ?c2, ?c3])))"
    using cursor_after_schedules[THEN conjunct1, rule_format] by blast
  with sum show ?thesis by (simp add: deliver_simp)
qed

text \<open>
  Two chunks of half a second at clocks 1 and 5: the second starts at 5 and the
  cursor ends at 5.5, not at 1 + 0.5 + 0.5.
\<close>

theorem underrun_counterexample:
  "nextStartTimeRef (run connected
      [OnMessage (player 1 (decodes_to half_second)) (chunk ''UklG''),
       OnMessage (player 5 (decodes_to half_second)) (chunk ''UklG'')]) = 11 / 2
   \<and> 11 / 2 \<noteq> 1 + duration half_second + duration half_second"
  by (simp add: connected_eq evaluate)

section \<open>Interruption\<close>

lemma interruption_simps:
  "serverContent interruption = Some \<lparr>modelTurn = None, turnComplete = False,
      interrupted = True, inputTranscription = None, outputTranscription = None\<rparr>"
  "base64Audio interruption = Inr None"
  by (simp_all add: interruption_def base64Audio_def)

lemma handleMessage_interruption:
  "handleMessage P interruption s =
     s\<lparr>events := events s @ map SourceStop (activeSourcesRef s),
       activeSourcesRef := [], nextStartTimeRef := 0\<rparr>"
proof -
  have "handleTranscription interruption s = s"
    by (simp add: handleTranscription_def interruption_simps)
  moreover have "handleAudio P None s = s"
    by (simp add: handleAudio_def)
  ultimately show ?thesis
    by (simp add: handleMessage_read[OF interruption_simps(2)]
        handleInterrupted_yes[OF interruption_simps(1)])
qed

lemma handleMessage_interrupted:
  assumes "serverContent m = Some sc" "interrupted sc" "base64Audio m = Inr payload"
  shows "activeSourcesRef (handleMessage P m s) = []"
    and "nextStartTimeRef (handleMessage P m s) = 0"
    and "uncaught (events (handleMessage P m s)) = uncaught (events s)"
    and "set (activeSourcesRef s) \<subseteq>
           set (stops (drop (length (events s)) (events (handleMessage P m s))))"
proof -
  let ?s1 = "handleTranscription m s"
  let ?s2 = "handleAudio P payload ?s1"
  have hm: "handleMessage P m s =
      ?s2\<lparr>events := events ?s2 @ map SourceStop (activeSourcesRef ?s2),
          activeSourcesRef := [], nextStartTimeRef := 0\<rparr>"
    using assms by (simp add: handleMessage_read handleInterrupted_yes)
  obtain ev where ev: "events ?s2 = events s @ ev" "uncaught ev = []"
    using handleAudio_events[of P payload ?s1] by (auto simp add: handleTranscription_same)
  show "activeSourcesRef (handleMessage P m s) = []" by (simp add: hm)
  show "nextStartTimeRef (handleMessage P m s) = 0" by (simp add: hm)
  show "uncaught (events (handleMessage P m s)) = uncaught (events s)"
    by (simp add: hm ev uncaught_append uncaught_SourceStop)
  have "set (activeSourcesRef s) \<subseteq> set (activeSourcesRef ?s2)"
    using handleAudio_active[of ?s1 P payload] by (simp add: handleTranscription_same)
  then show "set (activeSourcesRef s) \<subseteq>
           set (stops (drop (length (events s)) (events (handleMessage P m s))))"
    by (auto simp add: hm ev stops_append stops_SourceStop)
qed

text \<open>
  Claim C2, as the code behaves. While two sources play and the cursor is at 2, a
  message with the interruption signal and nothing else stops both sources, empties the
  active set and puts the cursor at 0, even in a browser where every \<^verbatim>\<open>stop\<close> throws,
  and a second such message changes nothing. A message with the signal and a model turn
  that has no parts is not handled so: the lookup of the payload throws before the
  interruption block, no \<^verbatim>\<open>stop\<close> is called, both sources stay active, the cursor stays
  at 2 and the \<^verbatim>\<open>TypeError\<close> leaves the handler.
\<close>

theorem interruption_lost_on_partless_turn:
  "activeSourcesRef playing = [4, 5] \<and> nextStartTimeRef playing = 2 \<and>
   activeSourcesRef (handleMessage stubborn interruption playing) = [] \<and>
   nextStartTimeRef (handleMessage stubborn interruption playing) = 0 \<and>
   stops (events (handleMessage stubborn interruption playing)) = [4, 5] \<and>
   uncaught (events (handleMessage stubborn interruption playing)) = [] \<and>
   handleMessage stubborn interruption (handleMessage stubborn interruption playing) =
     handleMessage stubborn interruption playing \<and>
   base64Audio partless_interruption = Inl TypeError \<and>
   activeSourcesRef (handleMessage stubborn partless_interruption playing) = [4, 5] \<and>
   nextStartTimeRef (handleMessage stubborn partless_interruption playing) = 2 \<and>
   stops (events (handleMessage stubborn partless_interruption playing)) = [] \<and>
   uncaught (events (handleMessage stubborn partless_interruption playing)) = [TypeError]"
proof -
  have p: "base64Audio partless_interruption = Inl TypeError"
    by (simp add: partless_interruption_def base64Audio_def)
  have t: "handleTranscription partless_interruption playing = playing"
    by (simp add: partless_interruption_def handleTranscription_def)
  show ?thesis
    by (simp add: handleMessage_interruption handleMessage_thrown[OF p] t p)
      (simp add: playing_eq)
qed

section \<open>Dispatch of one message\<close>

lemma handleMessage_texts:
  "currentOutputText (handleMessage P m s) = currentOutputText (handleTranscription m s)"
  "currentInputText (handleMessage P m s) = currentInputText (handleTranscription m s)"
  by (cases "base64Audio m";
      simp add: handleMessage_read handleMessage_thrown handleInterrupted_same handleAudio_same)+

lemma handleMessage_messages: "messages (handleMessage P m s) = messages s"
  by (cases "base64Audio m")
    (simp_all add: handleMessage_read handleMessage_thrown handleInterrupted_same
      handleAudio_same handleTranscription_same)

lemma handleMessage_scheduled_interrupted:
  assumes "serverContent m = Some sc" "interrupted sc" "base64Audio m = Inr (Some b64)"
    "b64 \<noteq> []" "outAudioContextRef s = Some ctx" "decodeAudioData P b64 = Inr buf"
  shows "events (handleMessage P m s) =
           events s @ [SourceStart (fresh s) (max (nextStartTimeRef s) (currentTime P))] @
             map SourceStop (Set_add (fresh s) (activeSourcesRef s))"
  using assms
  by (simp add: handleMessage_read handleInterrupted_yes
      handleAudio_scheduled[where ctx=ctx and buf=buf] handleTranscription_same)

text \<open>
  Claim C3. One call of \<^verbatim>\<open>handleMessage\<close> handles, in this order: the output
  fragment, or else (only when there is no output fragment) the input fragment, whose
  text is appended; turn-complete, which leaves the message list as it is; then, when
  the lookup of the payload does not throw (the model turn, if there is one, has its
  parts), the audio payload of the first part, when it is not empty, an output context
  exists and the decoder accepts it, and the interruption signal. These later parts are
  handled whatever the earlier ones were: with audio and the signal in one message the
  new source is started and then stopped with the others, and the cursor ends at 0.
\<close>

theorem handleMessage_dispatch:
  "\<forall>(P::platform) m (s::state) sc. serverContent m = Some sc \<longrightarrow>
     (\<forall>t x. outputTranscription sc = Some t \<and> text_of t = Some x \<longrightarrow>
        currentOutputText (handleMessage P m s) = currentOutputText s @ x \<and>
        currentInputText (handleMessage P m s) = currentInputText s) \<and>
     (\<forall>t x. outputTranscription sc = None \<and> inputTranscription sc = Some t \<and>
            text_of t = Some x \<longrightarrow>
        currentInputText (handleMessage P m s) = currentInputText s @ x \<and>
        currentOutputText (handleMessage P m s) = currentOutputText s) \<and>
     messages (handleMessage P m s) = messages s \<and>
     (\<forall>payload. base64Audio m = Inr payload \<longrightarrow>
        (\<forall>b64 ctx buf.
           payload = Some b64 \<and> b64 \<noteq> [] \<and> outAudioContextRef s = Some ctx \<and>
           decodeAudioData P b64 = Inr buf \<longrightarrow>
             (if interrupted sc
              then events (handleMessage P m s) =
                     events s @
                       [SourceStart (fresh s) (max (nextStartTimeRef s) (currentTime P))] @
                       map SourceStop (Set_add (fresh s) (activeSourcesRef s))
              else events (handleMessage P m s) =
                     events s @
                       [SourceStart (fresh s) (max (nextStartTimeRef s) (currentTime P))] \<and>
                   activeSourcesRef (handleMessage P m s) =
                     Set_add (fresh s) (activeSourcesRef s) \<and>
                   nextStartTimeRef (handleMessage P m s) =
                     max (nextStartTimeRef s) (currentTime P) + duration buf)) \<and>
        (interrupted sc \<longrightarrow>
           activeSourcesRef (handleMessage P m s) = [] \<and>
           nextStartTimeRef (handleMessage P m s) = 0))"
proof (intro allI impI conjI)
  fix P :: platform and m and s :: state and sc
  assume sc: "serverContent m = Some sc"
  show "messages (handleMessage P m s) = messages s"
    by (rule handleMessage_messages)
  {
    fix t x assume "outputTranscription sc = Some t \<and> text_of t = Some x"
    with sc show "currentOutputText (handleMessage P m s) = currentOutputText s @ x"
      and "currentInputText (handleMessage P m s) = currentInputText s"
      by (simp_all add: handleMessage_texts handleTranscription_def fragment_def)
  }
  {
    fix t x
    assume "outputTranscription sc = None \<and> inputTranscription sc = Some t \<and> text_of t = Some x"
    with sc show "currentInputText (handleMessage P m s) = currentInputText s @ x"
      and "currentOutputText (handleMessage P m s) = currentOutputText s"
      by (simp_all add: handleMessage_texts handleTranscription_def fragment_def)
  }
  fix payload
  assume r: "base64Audio m = Inr payload"
  {
    fix b64 ctx buf
    assume a: "payload = Some b64 \<and> b64 \<noteq> [] \<and> outAudioContextRef s = Some ctx \<and>
        decodeAudioData P b64 = Inr buf"
    with r have r': "base64Audio m = Inr (Some b64)" by simp
    show "if interrupted sc
              then events (handleMessage P m s) =
                     events s @
                       [SourceStart (fresh s) (max (nextStartTimeRef s) (currentTime P))] @
                       map SourceStop (Set_add (fresh s) (activeSourcesRef s))
              else events (handleMessage P m s) =
                     events s @
                       [SourceStart (fresh s) (max (nextStartTimeRef s) (currentTime P))] \<and>
                   activeSourcesRef (handleMessage P m s) =
                     Set_add (fresh s) (activeSourcesRef s) \<and>
                   nextStartTimeRef (handleMessage P m s) =
                     max (nextStartTimeRef s) (currentTime P) + duration buf"
    proof (cases "interrupted sc")
      case True
      then show ?thesis
        using handleMessage_scheduled_interrupted[OF sc True r', of s ctx P buf] a by simp
    next
      case False
      then show ?thesis
        using schedule_rule(1,2,4)[OF sc False r', of s ctx P buf] a by simp
    qed
  }
  {
    assume i: "interrupted sc"
    show "activeSourcesRef (handleMessage P m s) = []"
      and "nextStartTimeRef (handleMessage P m s) = 0"
      using handleMessage_interrupted(1,2)[OF sc i r] by simp_all
  }
qed

text \<open>
  The message with every part but the input fragment, delivered while two sources play:
  the output text grows, a third source is started at clock 1.9 clamped to the cursor 2,
  then all three are stopped.
\<close>

theorem handleMessage_dispatch_witness:
  "currentOutputText (handleMessage (player (19 / 10) (decodes_to half_second)) everything playing)
     = ''Hello'' \<and>
   messages (handleMessage (player (19 / 10) (decodes_to half_second)) everything playing) = [] \<and>
   events (handleMessage (player (19 / 10) (decodes_to half_second)) everything playing) =
     events playing @ [SourceStart 6 2, SourceStop 4, SourceStop 5, SourceStop 6] \<and>
   activeSourcesRef (handleMessage (player (19 / 10) (decodes_to half_second)) everything playing)
     = [] \<and>
   nextStartTimeRef (handleMessage (player (19 / 10) (decodes_to half_second)) everything playing)
     = 0"
proof -
  let ?P = "player (19 / 10) (decodes_to half_second)"
  let ?sc = "\<lparr>modelTurn = Some (Content (Some [Part (Some (Blob (Some ''UklG'')))])),
      turnComplete = True, interrupted = True, inputTranscription = None,
      outputTranscription = Some (Transcription (Some ''Hello''))\<rparr>"
  have sc: "serverContent everything = Some ?sc" by (simp add: everything_def)
  have r: "base64Audio everything = Inr (Some ''UklG'')"
    by (simp add: everything_def base64Audio_def)
  note d = handleMessage_dispatch[rule_format, OF sc, of ?P playing]
  note e = d[THEN conjunct2, THEN conjunct2, THEN conjunct2, rule_format, OF r]
  have 1: "currentOutputText (handleMessage ?P everything playing) = ''Hello''"
    using d[THEN conjunct1, rule_format, of "Transcription (Some ''Hello'')" "''Hello''"]
    by (simp add: playing_eq)
  have 2: "messages (handleMessage ?P everything playing) = []"
    using d[THEN conjunct2, THEN conjunct2, THEN conjunct1] by (simp add: playing_eq)
  have 3: "events (handleMessage ?P everything playing) =
     events playing @ [SourceStart 6 2, SourceStop 4, SourceStop 5, SourceStop 6]"
    using e[THEN conjunct1, rule_format, of "''UklG''" 1 half_second]
    by (simp add: playing_eq player_simps decodes_to_def Set_add_def)
  have 4: "activeSourcesRef (handleMessage ?P everything playing) = [] \<and>
      nextStartTimeRef (handleMessage ?P everything playing) = 0"
    using e[THEN conjunct2] by simp
  from 1 2 3 4 show ?thesis by simp
qed

text \<open>
  A message with both fragments: the output fragment is appended, the input fragment
  is not.
\<close>

theorem both_fragments_counterexample:
  "inputTranscription (the (serverContent both_fragments)) = Some (Transcription (Some ''Hi'')) \<and>
   currentOutputText (handleMessage (player 1 (decodes_to half_second)) both_fragments connected)
     = ''Hello'' \<and>
   currentInputText (handleMessage (player 1 (decodes_to half_second)) both_fragments connected)
     = [] \<and>
   currentInputText connected @ ''Hi'' \<noteq> []"
  by (simp add: connected_eq handleMessage_def handleTranscription_def fragment_def
      handleTurnComplete_def handleAudio_def handleInterrupted_def both_fragments_def
      base64Audio_def)

section \<open>A chunk that does not decode\<close>

text \<open>
  Claim C4. When the decoder rejects the payload, the audio branch logs the error and
  starts nothing: the active set, the status, the handles of the session and the
  allocator are as before, no exception leaves the handler, and the only trace on the
  cursor is the clamp made before decoding, \<open>nextStartTime = max nextStartTime clockNow\<close>.
  So the cursor is unchanged when the clock has not passed it, and for every clock
  value \<open>t\<close> that is not below the clock of this call, \<open>max nextStartTime t\<close> is what it
  was before the call.
\<close>

theorem decode_failure_dropped:
  assumes "serverContent m = Some sc" "\<not> interrupted sc"
    and "base64Audio m = Inr (Some b64)" "b64 \<noteq> []"
    and "outAudioContextRef s = Some ctx" "decodeAudioData P b64 = Inl err"
  shows "activeSourcesRef (handleMessage P m s) = activeSourcesRef s \<and>
         nextStartTimeRef (handleMessage P m s) = max (nextStartTimeRef s) (currentTime P) \<and>
         events (handleMessage P m s) = events s @ [ConsoleError err] \<and>
         status (handleMessage P m s) = status s \<and>
         fresh (handleMessage P m s) = fresh s \<and>
         outAudioContextRef (handleMessage P m s) = outAudioContextRef s \<and>
         audioContextRef (handleMessage P m s) = audioContextRef s \<and>
         sessionPromiseRef (handleMessage P m s) = sessionPromiseRef s \<and>
         micStreamRef (handleMessage P m s) = micStreamRef s \<and>
         scriptProcessorRef (handleMessage P m s) = scriptProcessorRef s \<and>
         (if currentTime P \<le> nextStartTimeRef s
          then nextStartTimeRef (handleMessage P m s) = nextStartTimeRef s
          else nextStartTimeRef (handleMessage P m s) = currentTime P) \<and>
         (\<forall>t. max (nextStartTimeRef (handleMessage P m s)) (max (currentTime P) t) =
               max (nextStartTimeRef s) (max (currentTime P) t))"
proof -
  let ?s1 = "handleTranscription m s"
  have ctx: "outAudioContextRef ?s1 = Some ctx"
    using assms(5) by (simp add: handleTranscription_same)
  have hm: "handleMessage P m s =
      ?s1\<lparr>nextStartTimeRef := max (nextStartTimeRef ?s1) (currentTime P),
          events := events ?s1 @ [ConsoleError err]\<rparr>"
    using assms(1,2)
    by (simp add: handleMessage_read[OF assms(3)] handleInterrupted_not
        handleAudio_rejected[OF assms(4) ctx assms(6)])
  show ?thesis
    by (simp add: hm handleTranscription_same handleTranscription_refs max_def)
qed

text \<open>
  The rejected chunk arrives at clock 1.9 while two sources play and the cursor is at 2:
  nothing changes but the log.
\<close>

theorem decode_failure_dropped_witness:
  "activeSourcesRef (handleMessage (rejecting (19 / 10)) (chunk ''UklG'') playing) = [4, 5] \<and>
   nextStartTimeRef (handleMessage (rejecting (19 / 10)) (chunk ''UklG'') playing) = 2 \<and>
   events (handleMessage (rejecting (19 / 10)) (chunk ''UklG'') playing) =
     events playing @ [ConsoleError DecodeError] \<and>
   status (handleMessage (rejecting (19 / 10)) (chunk ''UklG'') playing) = CONNECTED"
  using decode_failure_dropped[OF chunk_simps(1) _ chunk_simps(2),
      of "''UklG''" playing 1 "rejecting (19 / 10)" DecodeError]
  by (simp add: playing_eq rejecting_def player_simps)

text \<open>
  The rejected chunk arrives at clock 1 while the cursor is at 0: the cursor moves
  to 1.
\<close>

theorem decode_failure_counterexample:
  "nextStartTimeRef connected = 0 \<and>
   decodeAudioData (rejecting 1) ''UklG'' = Inl DecodeError \<and>
   nextStartTimeRef (handleMessage (rejecting 1) (chunk ''UklG'') connected) = 1 \<and>
   nextStartTimeRef (handleMessage (rejecting 1) (chunk ''UklG'') connected)
     \<noteq> nextStartTimeRef connected"
  by (simp add: connected_eq handleMessage_def handleTranscription_def
      handleTurnComplete_def handleAudio_def handleInterrupted_def chunk_def base64Audio_def
      rejecting_def player_def Let_def)

section \<open>stopSession\<close>

lemma stopSession_fields:
  "status (stopSession s) = DISCONNECTED"
  "micStreamRef (stopSession s) = None"
  "scriptProcessorRef (stopSession s) = None"
  "audioContextRef (stopSession s) = None"
  "outAudioContextRef (stopSession s) = None"
  "sessionPromiseRef (stopSession s) = None"
  "currentInputText (stopSession s) = []"
  "currentOutputText (stopSession s) = []"
  "messages (stopSession s) = messages s"
  "activeSourcesRef (stopSession s) = activeSourcesRef s"
  "fresh (stopSession s) = fresh s"
  by (simp_all add: stopSession_def Let_def split: option.splits)

lemma stopSession_released:
  assumes "micStreamRef s = None" "scriptProcessorRef s = None" "audioContextRef s = None"
    "outAudioContextRef s = None"
  shows "stopSession s =
           s\<lparr>status := DISCONNECTED, sessionPromiseRef := None, currentInputText := [],
             currentOutputText := []\<rparr>"
  using assms by (simp add: stopSession_def Let_def)

lemma stopSession_twice: "stopSession (stopSession s) = stopSession s"
  by (simp add: stopSession_released stopSession_fields)

lemma closes_append: "closes (xs @ ys) = closes xs @ closes ys"
  by (induction xs rule: closes.induct) auto

lemma stopSession_events:
  "\<exists>ev. events (stopSession s) = events s @ ev \<and> uncaught ev = [] \<and> closes ev = []"
proof -
  have tr: "uncaught (map TrackStop xs) = [] \<and> closes (map TrackStop xs) = []" for xs
    by (induction xs) auto
  show ?thesis
    by (auto simp add: stopSession_def Let_def tr uncaught_append closes_append
        split: option.splits)
qed

text \<open>
  Claim C5, as the code behaves: after one chunk of half a second was scheduled at clock
  1, \<^verbatim>\<open>stopSession\<close> empties both transcript texts but leaves the cursor at 1.5 and the
  source in the active set. In the next session, whose new output context starts its
  clock again, the first chunk arrives at clock 0.1 and is started at 1.5.
\<close>

theorem stopSession_leaves_cursor:
  "nextStartTimeRef (run connected
      [OnMessage (player 1 (decodes_to half_second)) (chunk ''UklG''), StopSession]) = 3 / 2 \<and>
   activeSourcesRef (run connected
      [OnMessage (player 1 (decodes_to half_second)) (chunk ''UklG''), StopSession]) = [4] \<and>
   currentInputText (run connected
      [OnMessage (player 1 (decodes_to half_second)) (chunk ''UklG''), StopSession]) = [] \<and>
   currentOutputText (run connected
      [OnMessage (player 1 (decodes_to half_second)) (chunk ''UklG''), StopSession]) = [] \<and>
   start_times (events (run connected
      [OnMessage (player 1 (decodes_to half_second)) (chunk ''UklG''), StopSession,
       StartSession granted, GetUserMediaSettled, OnOpen,
       OnMessage (player (1 / 10) (decodes_to half_second)) (chunk ''UklG'')])) = [1, 3 / 2]"
  by (simp add: connected_eq evaluate stopSession_def startSession_def
      startSession_resumed_def onopen_def granted_def)

text \<open>
  Claim C6. From any state \<^verbatim>\<open>stopSession\<close> ends in \<open>DISCONNECTED\<close> with every handle
  dropped, lets no exception out, and a second call in a row changes nothing: it finds
  every ref null and makes no call on the browser.
\<close>

theorem stopSession_idempotent:
  "status (stopSession s) = DISCONNECTED \<and>
   stopSession (stopSession s) = stopSession s \<and>
   events (stopSession (stopSession s)) = events (stopSession s) \<and>
   uncaught (events (stopSession s)) = uncaught (events s) \<and>
   micStreamRef (stopSession s) = None \<and> scriptProcessorRef (stopSession s) = None \<and>
   audioContextRef (stopSession s) = None \<and> outAudioContextRef (stopSession s) = None \<and>
   sessionPromiseRef (stopSession s) = None \<and>
   onclose s = stopSession s"
proof -
  obtain ev where "events (stopSession s) = events s @ ev" "uncaught ev = []"
    using stopSession_events by blast
  then have "uncaught (events (stopSession s)) = uncaught (events s)"
    by (simp add: uncaught_append)
  then show ?thesis
    by (simp add: stopSession_fields stopSession_twice onclose_def)
qed

text \<open>Twice in a row from the connected state, and once from the initial state.\<close>

theorem stopSession_idempotent_witness:
  "status connected = CONNECTED \<and>
   events (stopSession connected) =
     events connected @ [TrackStop 7, ProcessorDisconnect 3, ContextClose 0, ContextClose 1] \<and>
   status (stopSession (stopSession connected)) = DISCONNECTED \<and>
   events (stopSession (stopSession connected)) = events (stopSession connected) \<and>
   uncaught (events (stopSession (stopSession connected))) = [] \<and>
   status init = DISCONNECTED \<and> stopSession init = init"
proof -
  have 1: "events (stopSession connected) =
     events connected @ [TrackStop 7, ProcessorDisconnect 3, ContextClose 0, ContextClose 1]"
    by (simp add: connected_eq stopSession_def Let_def)
  have 2: "stopSession init = init"
    by (simp add: init_def stopSession_def Let_def)
  have 3: "uncaught (events (stopSession connected)) = []"
    using stopSession_idempotent[of connected] by (simp add: connected_eq)
  show ?thesis
    using stopSession_idempotent[of connected] stopSession_idempotent[of "stopSession connected"]
      1 2 3
    by (simp add: connected_eq init_def)
qed

section \<open>startSession\<close>

lemma startSession_guard: "status s \<noteq> DISCONNECTED \<Longrightarrow> startSession E s = s"
  by (simp add: startSession_def)

lemma handleMessage_closes: "closes (events (handleMessage P m s)) = closes (events s)"
proof -
  have st: "closes (map SourceStop xs) = []" for xs
    by (induction xs) auto
  show ?thesis
    by (simp add: handleMessage_def handleInterrupted_def handleAudio_def handleTurnComplete_id
        handleTranscription_def Let_def foldl_try_stop closes_append st
        split: option.splits sum.splits)
qed

lemma stopSession_closes: "closes (events (stopSession s)) = closes (events s)"
  using stopSession_events[of s] by (auto simp add: closes_append)

lemma step_closes: "closes (events (step s x)) = closes (events s)"
  by (cases x)
    (simp_all add: handleMessage_closes stopSession_closes onclose_def onopen_def
      onerror_def addMessage_def sourceEnded_def startSession_def startSession_resumed_def
      Let_def closes_append split: option.splits list.splits sum.splits)

text \<open>
  Claim C8, as the code behaves. A call of \<^verbatim>\<open>startSession\<close> while connected returns the
  state as it is. But no operation of the component ever calls \<^verbatim>\<open>close\<close> on a session:
  after start, open, \<^verbatim>\<open>stopSession\<close> and a second start, sessions 2 and 6 have both
  been opened and neither has been closed. And the status is not read again after
  \<^verbatim>\<open>await getUserMedia\<close>: when \<^verbatim>\<open>stopSession\<close> runs while the first call is suspended,
  the call goes on to store stream 7 and to open session 2 under the status
  \<open>DISCONNECTED\<close>, so a second call passes the guard, replaces the stream by stream 8,
  whose predecessor has no track stopped, and opens session 5 beside session 2.
\<close>

theorem second_session_beside_first:
  "startSession granted_again connected = connected \<and>
   (\<forall>(s::state) x. closes (events (step s x)) = closes (events s)) \<and>
   connects (events (run connected [StopSession, StartSession granted_again,
       GetUserMediaSettled])) = [2, 6] \<and>
   closes (events (run connected [StopSession, StartSession granted_again,
       GetUserMediaSettled])) = [] \<and>
   status (run init [StartSession granted, StopSession, GetUserMediaSettled]) = DISCONNECTED \<and>
   micStreamRef (run init [StartSession granted, StopSession, GetUserMediaSettled])
     = Some (MediaStream [7]) \<and>
   sessionPromiseRef (run init [StartSession granted, StopSession, GetUserMediaSettled])
     = Some 2 \<and>
   connects (events (run init [StartSession granted, StopSession, GetUserMediaSettled,
       StartSession granted_again, GetUserMediaSettled])) = [2, 5] \<and>
   closes (events (run init [StartSession granted, StopSession, GetUserMediaSettled,
       StartSession granted_again, GetUserMediaSettled])) = [] \<and>
   micStreamRef (run init [StartSession granted, StopSession, GetUserMediaSettled,
       StartSession granted_again, GetUserMediaSettled]) = Some (MediaStream [8]) \<and>
   stopped_tracks (events (run init [StartSession granted, StopSession, GetUserMediaSettled,
       StartSession granted_again, GetUserMediaSettled])) = []"
proof -
  have "\<forall>(s::state) x. closes (events (step s x)) = closes (events s)"
    by (simp add: step_closes)
  moreover have "startSession granted_again connected = connected"
    by (simp add: startSession_guard connected_eq)
  ultimately show ?thesis
    by (simp add: connected_eq run_def init_def granted_def granted_again_def
        startSession_def startSession_resumed_def stopSession_def Let_def)
qed

section \<open>Recovery from ERROR\<close>

text \<open>
  Claim C9, as the code behaves. The microphone is refused and the status is \<open>ERROR\<close>.
  A fresh call of \<^verbatim>\<open>startSession\<close>, now with the microphone granted, returns at its
  guard: the state is the same, the status is still \<open>ERROR\<close>, no call is suspended at
  the microphone and no session has been asked for.
\<close>

theorem start_in_error_is_ignored:
  "status (run init [StartSession mic_denied, GetUserMediaSettled]) = ERROR \<and>
   getUserMedia granted = Inr (MediaStream [7]) \<and>
   startSession granted (run init [StartSession mic_denied, GetUserMediaSettled]) =
     run init [StartSession mic_denied, GetUserMediaSettled] \<and>
   status (run init [StartSession mic_denied, GetUserMediaSettled, StartSession granted,
       GetUserMediaSettled]) = ERROR \<and>
   awaiting (run init [StartSession mic_denied, GetUserMediaSettled, StartSession granted]) = [] \<and>
   connects (events (run init [StartSession mic_denied, GetUserMediaSettled,
       StartSession granted, GetUserMediaSettled])) = []"
  by (simp add: run_def init_def startSession_def startSession_resumed_def mic_denied_def
      granted_def Let_def)

section \<open>The message list\<close>

lemma trim_empty_iff: "trim t = [] \<longleftrightarrow> (\<forall>c\<in>set t. is_ws c)"
proof
  assume "trim t = []"
  then have all: "\<forall>c\<in>set (dropWhile is_ws t). is_ws c"
    by (simp add: trim_def)
  have "dropWhile is_ws t = []"
  proof (rule ccontr)
    assume ne: "dropWhile is_ws t \<noteq> []"
    then have "\<not> is_ws (hd (dropWhile is_ws t))" by (rule hd_dropWhile)
    moreover have "hd (dropWhile is_ws t) \<in> set (dropWhile is_ws t)" using ne by simp
    ultimately show False using all by blast
  qed
  then show "\<forall>c\<in>set t. is_ws c" by simp
next
  assume "\<forall>c\<in>set t. is_ws c"
  then have "dropWhile is_ws t = []" by simp
  then show "trim t = []" unfolding trim_def by (simp del: dropWhile_eq_Nil_conv)
qed

lemma addMessage_blank: "\<forall>c\<in>set t. is_ws c \<Longrightarrow> addMessage rid now r t s = s"
  by (simp add: addMessage_def trim_empty_iff)

lemma addMessage_append:
  "\<exists>c\<in>set t. \<not> is_ws c \<Longrightarrow>
     messages (addMessage rid now r t s) =
       messages s @ [\<lparr>msg_id = rid, role = r, msg_text = t, timestamp = now\<rparr>]"
  by (auto simp add: addMessage_def trim_empty_iff)

lemma startSession_messages: "messages (startSession E s) = messages s"
  by (simp add: startSession_def Let_def)

lemma startSession_resumed_messages: "messages (startSession_resumed s) = messages s"
  by (simp add: startSession_resumed_def Let_def split: list.splits sum.splits)

lemma step_messages:
  "messages (step s x) = messages s \<or>
   (\<exists>rid now r t. (\<exists>c\<in>set t. \<not> is_ws c) \<and>
      messages (step s x) = messages s @ [\<lparr>msg_id = rid, role = r, msg_text = t, timestamp = now\<rparr>])"
proof (cases x)
  case (AddMessage rid now r t)
  show ?thesis
  proof (cases "\<forall>c\<in>set t. is_ws c")
    case True
    then show ?thesis using AddMessage by (simp add: addMessage_blank)
  next
    case False
    then have "\<exists>c\<in>set t. \<not> is_ws c" by blast
    from addMessage_append[OF this] this show ?thesis using AddMessage by auto
  qed
qed (simp_all add: startSession_messages startSession_resumed_messages handleMessage_messages
      stopSession_fields onclose_def onopen_def onerror_def sourceEnded_def Let_def
      split: option.splits)

lemma step_prefix: "prefix (messages s) (messages (step s x))"
  using step_messages[of s x] by auto

lemma run_prefix: "prefix (messages s) (messages (run s xs))"
proof (induction xs arbitrary: s)
  case Nil
  then show ?case by (simp add: run_Nil)
next
  case (Cons x xs)
  from step_prefix[of s x] Cons.IH[of "step s x"] show ?case
    by (simp add: run_Cons)
qed

lemma step_no_blank:
  assumes "\<forall>e\<in>set (messages s). \<exists>c\<in>set (msg_text e). \<not> is_ws c"
  shows "\<forall>e\<in>set (messages (step s x)). \<exists>c\<in>set (msg_text e). \<not> is_ws c"
proof -
  from step_messages[of s x] consider "messages (step s x) = messages s"
    | rid now r t where "\<exists>c\<in>set t. \<not> is_ws c"
        "messages (step s x) =
           messages s @ [\<lparr>msg_id = rid, role = r, msg_text = t, timestamp = now\<rparr>]"
    by blast
  then show ?thesis
  proof cases
    case 1
    then show ?thesis using assms by simp
  next
    case 2
    then show ?thesis using assms by simp
  qed
qed

lemma run_no_blank:
  "\<forall>e\<in>set (messages s). \<exists>c\<in>set (msg_text e). \<not> is_ws c \<Longrightarrow>
     \<forall>e\<in>set (messages (run s xs)). \<exists>c\<in>set (msg_text e). \<not> is_ws c"
proof (induction xs arbitrary: s)
  case Nil
  then show ?case by (simp add: run_Nil)
next
  case (Cons x xs)
  from Cons.IH[OF step_no_blank[OF Cons.prems]] show ?case by (simp add: run_Cons)
qed

text \<open>
  Claim C10. \<^verbatim>\<open>addMessage\<close> returns the state as it is when the text is empty or white
  space only, and appends one entry otherwise. Every operation leaves the message list
  it finds as a prefix of the list it leaves, so does every run; \<^verbatim>\<open>handleMessage\<close>
  (turn-complete and interruption included) and \<^verbatim>\<open>stopSession\<close> leave the list equal.
  In every state reached from the mount, each entry has a character that is not white
  space.
\<close>

theorem messages_append_only:
  "(\<forall>rid now r t (s::state). (\<forall>c\<in>set t. is_ws c) \<longrightarrow> addMessage rid now r t s = s)
   \<and>
   (\<forall>rid now r t (s::state). (\<exists>c\<in>set t. \<not> is_ws c) \<longrightarrow>
       messages (addMessage rid now r t s) =
         messages s @ [\<lparr>msg_id = rid, role = r, msg_text = t, timestamp = now\<rparr>])
   \<and>
   (\<forall>(s::state) x. prefix (messages s) (messages (step s x)))
   \<and>
   (\<forall>(s::state) xs. prefix (messages s) (messages (run s xs)))
   \<and>
   (\<forall>(P::platform) m (s::state). messages (handleMessage P m s) = messages s)
   \<and>
   (\<forall>(s::state). messages (stopSession s) = messages s)
   \<and>
   (\<forall>xs. \<forall>e\<in>set (messages (run init xs)). \<exists>c\<in>set (msg_text e). \<not> is_ws c)"
proof (intro conjI allI impI)
  fix rid now r t and s :: state
  assume "\<forall>c\<in>set t. is_ws c"
  then show "addMessage rid now r t s = s" by (rule addMessage_blank)
next
  fix rid now r t and s :: state
  assume "\<exists>c\<in>set t. \<not> is_ws c"
  then show "messages (addMessage rid now r t s) =
         messages s @ [\<lparr>msg_id = rid, role = r, msg_text = t, timestamp = now\<rparr>]"
    by (rule addMessage_append)
next
  fix s :: state and x
  show "prefix (messages s) (messages (step s x))" by (rule step_prefix)
next
  fix s :: state and xs
  show "prefix (messages s) (messages (run s xs))" by (rule run_prefix)
next
  fix P :: platform and m and s :: state
  show "messages (handleMessage P m s) = messages s" by (rule handleMessage_messages)
next
  fix s :: state
  show "messages (stopSession s) = messages s" by (simp add: stopSession_fields)
next
  fix xs
  show "\<forall>e\<in>set (messages (run init xs)). \<exists>c\<in>set (msg_text e). \<not> is_ws c"
    by (rule run_no_blank) (simp add: init_def)
qed

lemma is_ws_simps:
  "is_ws (CHR '' '')" "is_ws (CHR 0x09)" "is_ws (CHR 0x0A)" "\<not> is_ws (CHR ''W'')"
  by (simp_all add: is_ws_def)

text \<open>
  A blank text is ignored, a question is appended, and the entry survives a completed
  turn, an interruption and \<^verbatim>\<open>stopSession\<close>.
\<close>

theorem messages_append_only_witness:
  "addMessage ''k3x9'' 1700000000000 user [CHR '' '', CHR 0x09, CHR 0x0A] connected = connected \<and>
   messages (addMessage ''p07q'' 1700000000001 user ''What is KVL?'' connected) =
     [\<lparr>msg_id = ''p07q'', role = user, msg_text = ''What is KVL?'',
       timestamp = 1700000000001\<rparr>] \<and>
   messages (run init chat) =
     [\<lparr>msg_id = ''p07q'', role = user, msg_text = ''What is KVL?'',
       timestamp = 1700000000001\<rparr>] \<and>
   prefix (messages (addMessage ''p07q'' 1700000000001 user ''What is KVL?'' connected))
     (messages (run (addMessage ''p07q'' 1700000000001 user ''What is KVL?'' connected)
        [OnMessage (player 1 (decodes_to half_second)) both_fragments, StopSession])) \<and>
   list_all (\<lambda>e. \<not> list_all is_ws (msg_text e)) (messages (run init chat))"
proof -
  note t = messages_append_only
  have 1: "addMessage ''k3x9'' 1700000000000 user [CHR '' '', CHR 0x09, CHR 0x0A] connected
      = connected"
  proof -
    have "\<forall>c\<in>set [CHR '' '', CHR 0x09, CHR 0x0A]. is_ws c"
      by (simp add: is_ws_simps)
    then show ?thesis
      using t[THEN conjunct1, rule_format,
          of "[CHR '' '', CHR 0x09, CHR 0x0A]" "''k3x9''" 1700000000000 user connected]
      by blast
  qed
  have w: "\<exists>c\<in>set ''What is KVL?''. \<not> is_ws c"
    using is_ws_simps(4) by simp
  have 2: "messages (addMessage ''p07q'' 1700000000001 user ''What is KVL?'' connected) =
     [\<lparr>msg_id = ''p07q'', role = user, msg_text = ''What is KVL?'',
       timestamp = 1700000000001\<rparr>]"
    using t[THEN conjunct2, THEN conjunct1, rule_format, OF w,
        of "''p07q''" 1700000000001 user connected]
    by (simp add: connected_eq)
  let ?a = "addMessage ''p07q'' 1700000000001 user ''What is KVL?'' connected"
  have a: "messages (handleMessage P m ?a) = messages ?a" for P m
    using t[THEN conjunct2, THEN conjunct2, THEN conjunct2, THEN conjunct2, THEN conjunct1]
    by blast
  have b: "messages (stopSession s) = messages s" for s
    using t[THEN conjunct2, THEN conjunct2, THEN conjunct2, THEN conjunct2, THEN conjunct2,
        THEN conjunct1] by blast
  have c: "messages (handleMessage P m s) = messages s" for P m s
    using t[THEN conjunct2, THEN conjunct2, THEN conjunct2, THEN conjunct2, THEN conjunct1]
    by blast
  have "run init chat = stopSession (handleMessage (player 1 (decodes_to half_second)) interruption
      (handleMessage (player 1 (decodes_to half_second)) both_fragments
        (addMessage ''p07q'' 1700000000001 user ''What is KVL?''
          (addMessage ''k3x9'' 1700000000000 user [CHR '' '', CHR 0x09, CHR 0x0A] connected))))"
    by (simp add: chat_def run_def connected_def)
  then have 3: "messages (run init chat) =
     [\<lparr>msg_id = ''p07q'', role = user, msg_text = ''What is KVL?'',
       timestamp = 1700000000001\<rparr>]"
    by (simp add: b c 1 2)
  have 4: "prefix (messages ?a)
     (messages (run ?a [OnMessage (player 1 (decodes_to half_second)) both_fragments, StopSession]))"
    using t[THEN conjunct2, THEN conjunct2, THEN conjunct2, THEN conjunct1] by blast
  have "\<forall>e\<in>set (messages (run init chat)). \<exists>c\<in>set (msg_text e). \<not> is_ws c"
    using t[THEN conjunct2, THEN conjunct2, THEN conjunct2, THEN conjunct2, THEN conjunct2,
        THEN conjunct2] by blast
  then have 5: "list_all (\<lambda>e. \<not> list_all is_ws (msg_text e)) (messages (run init chat))"
    by (simp add: list_all_iff)
  from 1 2 3 4 5 show ?thesis by blast
qed

end
